theory Spec2Isabelle
  imports Main
begin

section \<open>pblk-core.c: a host-side flash translation layer\<close>

text \<open>
  This theory embeds the parts of \<^verbatim>\<open>drivers/lightnvm/pblk-core.c\<close> that the
  properties below are about.  C integers are modelled as \<open>int\<close> and \<open>nat\<close>; where
  the C code converts between \<^verbatim>\<open>int\<close> and \<^verbatim>\<open>unsigned long\<close> the conversion is
  written out.  A function that may trap or spin forever returns an \<open>option\<close>, and
  \<open>None\<close> means that it does not return.
\<close>

subsection \<open>Integer conversions of the C code\<close>

text \<open>An \<^verbatim>\<open>int\<close> used where an \<^verbatim>\<open>unsigned long\<close> is expected (64 bit).\<close>

definition u64_of_int :: "int \<Rightarrow> nat" where
  "u64_of_int i = nat (i mod 2 ^ 64)"

text \<open>A value stored into an \<^verbatim>\<open>int\<close> (32 bit, two's complement, wrapping).\<close>

definition s32_of_int :: "int \<Rightarrow> int" where
  "s32_of_int i = (i + 2 ^ 31) mod 2 ^ 32 - 2 ^ 31"

subsection \<open>The media writer's batch size: \<^verbatim>\<open>pblk_calc_secs_to_sync\<close>\<close>

text \<open>
  The two geometry fields of \<^verbatim>\<open>struct pblk\<close> that the function reads; the record of the
  whole driver instance below extends this one.
\<close>

record pblk_geo =
  max_write_pgs :: int
  min_write_pgs :: int

text \<open>
  The \<^verbatim>\<open>while (1)\<close> loop of the flush branch: \<^verbatim>\<open>inc\<close> is an \<^verbatim>\<open>int\<close>, it is compared
  with the \<^verbatim>\<open>unsigned long secs_avail\<close> after conversion and with the \<^verbatim>\<open>int max\<close>
  directly.
\<close>

partial_function (option) secs_to_sync_loop :: "int \<Rightarrow> int \<Rightarrow> nat \<Rightarrow> int \<Rightarrow> int option" where
  "secs_to_sync_loop mn mx secs_avail secs_to_sync =
     (let inc = s32_of_int (secs_to_sync + mn) in
      if u64_of_int inc \<le> secs_avail \<and> inc \<le> mx
      then secs_to_sync_loop mn mx secs_avail (s32_of_int (secs_to_sync + mn))
      else Some secs_to_sync)"

declare secs_to_sync_loop.simps [code]

text \<open>
  \<^verbatim>\<open>min * (secs / min)\<close> is computed in \<^verbatim>\<open>unsigned long\<close> and stored into an \<^verbatim>\<open>int\<close>;
  a zero \<^verbatim>\<open>min\<close> is a division trap.
\<close>

definition round_down_to_min :: "int \<Rightarrow> nat \<Rightarrow> int option" where
  "round_down_to_min mn secs =
     (if u64_of_int mn = 0 then None
      else Some (s32_of_int (int ((u64_of_int mn * (secs div u64_of_int mn)) mod 2 ^ 64))))"

definition pblk_calc_secs_to_sync :: "'a pblk_geo_scheme \<Rightarrow> nat \<Rightarrow> nat \<Rightarrow> int option" where
  "pblk_calc_secs_to_sync pblk secs_avail secs_to_flush =
     (let mx = max_write_pgs pblk; mn = min_write_pgs pblk in
      if secs_avail \<ge> u64_of_int mx \<or> secs_to_flush \<ge> u64_of_int mx then Some mx
      else if secs_avail \<ge> u64_of_int mn then
        (if secs_to_flush \<noteq> 0 then
           (case round_down_to_min mn secs_to_flush of
              None \<Rightarrow> None
            | Some s \<Rightarrow> secs_to_sync_loop mn mx secs_avail s)
         else round_down_to_min mn secs_avail)
      else (if secs_to_flush \<noteq> 0 then Some mn else Some 0))"

subsection \<open>Backpressure on admissions: \<^verbatim>\<open>atomic_inc_below\<close> and \<^verbatim>\<open>pblk_may_submit_write\<close>\<close>



text \<open>
  \<^verbatim>\<open>atomic_inc_below(v, below, inc)\<close> reads the counter into \<^verbatim>\<open>cur\<close> and loops: it gives up
  when \<^verbatim>\<open>cur >= below\<close>, otherwise it tries \<^verbatim>\<open>atomic_cmpxchg(v, cur, cur + inc)\<close>.  The
  first argument is the value last read.  The list holds, for each compare-and-exchange
  still to come, the net change that other CPUs made to the counter since the value was
  read: the exchange returns the value \<^verbatim>\<open>old\<close> that it finds; when that is \<^verbatim>\<open>cur\<close> the
  exchange has succeeded, otherwise the loop goes on with it.  The empty list means that
  nobody interferes any more.  The result is the function's return value and the value of
  the counter when it returns.
\<close>

fun atomic_inc_below :: "int \<Rightarrow> int \<Rightarrow> int \<Rightarrow> int list \<Rightarrow> bool \<times> int" where
  "atomic_inc_below cur below inc [] =
     (if cur \<ge> below then (False, cur) else (True, s32_of_int (cur + inc)))"
| "atomic_inc_below cur below inc (d # ds) =
     (if cur \<ge> below then (False, cur)
      else if s32_of_int (cur + d) = cur then (True, s32_of_int (cur + inc))
      else atomic_inc_below (s32_of_int (cur + d)) below inc ds)"

definition pblk_may_submit_write_try :: "int \<Rightarrow> int \<Rightarrow> int list \<Rightarrow> bool \<times> int" where
  \<comment> \<open>\<^verbatim>\<open>__pblk_may_submit_write\<close>\<close>
  "pblk_may_submit_write_try v nr_secs ds = atomic_inc_below v 400000 nr_secs ds"








subsection \<open>Addresses\<close>

text \<open>
  Modelled from the spec: \<^verbatim>\<open>struct ppa_addr\<close> and its helpers (\<^verbatim>\<open>ppa_empty\<close>,
  \<^verbatim>\<open>nvm_addr_in_cache\<close>, \<^verbatim>\<open>nvm_addr_get_read_cache\<close>, \<^verbatim>\<open>nvm_addr_set_read_cache\<close>,
  \<^verbatim>\<open>nvm_addr_to_cacheline\<close>, \<^verbatim>\<open>pblk_cacheline_to_ppa\<close>, \<^verbatim>\<open>ppa_cmp_blk\<close>) are declared in
  \<^verbatim>\<open>pblk.h\<close> and \<^verbatim>\<open>lightnvm.h\<close>, which are not among the sources.  The spec gives the
  address as a tagged value with two encodings and a sentinel: a device address, a
  cacheline reference (an index into the write ring) or \<open>EMPTY\<close>.  The read-pin is the
  flag carried by the cacheline reference that is stored in an L2P entry.  Plane, page
  and sector of a device address are folded into one sector offset inside the block.
\<close>

datatype ppa_addr =
    Ppa_empty
  | Ppa_cache nat bool    \<comment> \<open>cacheline, read-pin\<close>
  | Ppa_dev nat nat nat nat    \<comment> \<open>channel, LUN, block, sector offset in the block\<close>

definition ADDR_EMPTY :: nat where
  "ADDR_EMPTY = 2 ^ 64 - 1"

fun ppa_empty :: "ppa_addr \<Rightarrow> bool" where
  "ppa_empty Ppa_empty = True"
| "ppa_empty _ = False"

fun nvm_addr_in_cache :: "ppa_addr \<Rightarrow> bool" where
  "nvm_addr_in_cache (Ppa_cache line pin) = True"
| "nvm_addr_in_cache _ = False"

fun nvm_addr_get_read_cache :: "ppa_addr \<Rightarrow> bool" where
  "nvm_addr_get_read_cache (Ppa_cache line pin) = pin"
| "nvm_addr_get_read_cache _ = False"

text \<open>The code sets the pin only on addresses that it has found to be in the cache.\<close>

fun nvm_addr_set_read_cache :: "ppa_addr \<Rightarrow> bool \<Rightarrow> ppa_addr" where
  "nvm_addr_set_read_cache (Ppa_cache line pin) flag = Ppa_cache line flag"
| "nvm_addr_set_read_cache p flag = p"

fun nvm_addr_to_cacheline :: "ppa_addr \<Rightarrow> nat" where
  "nvm_addr_to_cacheline (Ppa_cache line pin) = line"
| "nvm_addr_to_cacheline _ = 0"

definition pblk_cacheline_to_ppa :: "nat \<Rightarrow> ppa_addr" where
  "pblk_cacheline_to_ppa line = Ppa_cache line False"

fun ppa_cmp_blk :: "ppa_addr \<Rightarrow> ppa_addr \<Rightarrow> bool" where
  "ppa_cmp_blk (Ppa_dev ch1 lun1 blk1 sec1) (Ppa_dev ch2 lun2 blk2 sec2) =
     (ch1 = ch2 \<and> lun1 = lun2 \<and> blk1 = blk2)"
| "ppa_cmp_blk _ _ = False"

fun ppa_sec_in_blk :: "ppa_addr \<Rightarrow> nat" where
  "ppa_sec_in_blk (Ppa_dev ch lun blk sec) = sec"
| "ppa_sec_in_blk _ = 0"

subsection \<open>The driver instance\<close>

text \<open>An L2P entry (\<^verbatim>\<open>struct pblk_addr\<close>): the address and the owning block, if any.\<close>

record pblk_addr =
  addr_ppa :: ppa_addr
  addr_rblk :: "nat option"

text \<open>
  A block (\<^verbatim>\<open>struct pblk_block\<close> with the bitmaps and counters of its recovery page);
  bitmaps are sets of bit positions.
\<close>

record pblk_block =
  b_ch :: nat    \<comment> \<open>channel and LUN of the block (\<^verbatim>\<open>b_gen_ppa\<close>)\<close>
  b_lun :: nat
  cur_sec :: nat
  nr_invalid_secs :: nat
  sector_bitmap :: "nat set"
  sync_bitmap :: "nat set"
  invalid_bitmap :: "nat set"
  nr_lbas :: nat
  nr_padded :: nat
  lba_list :: "nat \<Rightarrow> nat"

datatype iotype = PBLK_IOTYPE_SYNC | PBLK_IOTYPE_CLOSE_BLK | PBLK_IOTYPE_GC | PBLK_IOTYPE_REF

text \<open>
  The write context of a ring entry (\<^verbatim>\<open>struct pblk_w_ctx\<close>); bios and blocks are named by
  numbers.
\<close>

record pblk_w_ctx =
  w_bio :: "nat option"
  w_lba :: nat
  w_flags :: "iotype set"
  w_priv :: "nat option"
  w_paddr :: nat
  w_ppa :: ppa_addr    \<comment> \<open>\<^verbatim>\<open>w_ctx.ppa.ppa\<close>\<close>
  w_rblk :: nat    \<comment> \<open>\<^verbatim>\<open>w_ctx.ppa.rblk\<close>: set by the mapper, not initialised before\<close>

record pblk_rb_entry =
  e_data :: nat
  e_w_ctx :: pblk_w_ctx

text \<open>
  Modelled from the spec: the write ring (\<^verbatim>\<open>struct pblk_rb\<close> and the \<^verbatim>\<open>pblk_rb_*\<close>
  functions of \<^verbatim>\<open>pblk-rb.c\<close>, which is not among the sources).  The spec (3 and 4.D)
  gives it three advancing positions \<open>mem\<close>, \<open>subm\<close> and \<open>sync\<close>; a position is
  collapsed to its slot by \<open>wrap_pos\<close>.  The payload of a sector is a number.
\<close>

record pblk_rb =
  rb_entries :: "nat \<Rightarrow> pblk_rb_entry"
  rb_nr_entries :: nat
  rb_mem :: nat
  rb_subm :: nat
  rb_sync :: nat
  rb_sync_point :: "(nat \<times> nat) option"    \<comment> \<open>position and bio of the pending flush barrier\<close>

text \<open>
  The completion context of a write request (\<^verbatim>\<open>struct pblk_ctx\<close> with its
  \<^verbatim>\<open>pblk_compl_ctx\<close> or \<^verbatim>\<open>pblk_compl_close_ctx\<close>) and the request itself
  (\<^verbatim>\<open>struct nvm_rq\<close>), which carries the context as its payload.
\<close>

record pblk_ctx =
  ctx_flags :: "iotype set"
  c_sentry :: nat
  c_nr_valid :: nat
  c_nr_padded :: nat
  c_rblk :: nat    \<comment> \<open>the block of a close-block request\<close>

record nvm_rq =
  rq_bio :: "nat option"
  rq_is_read :: bool    \<comment> \<open>\<^verbatim>\<open>rqd->bio->bi_rw == READ\<close>\<close>
  rq_ppa_addr :: ppa_addr
  rq_ppa_list :: "ppa_addr list"
  rq_nr_ppas :: nat
  rq_has_meta :: bool    \<comment> \<open>\<^verbatim>\<open>rqd->meta_list\<close> is set\<close>
  rq_failwrite :: bool    \<comment> \<open>\<^verbatim>\<open>rqd->error == NVM_RSP_ERR_FAILWRITE\<close>\<close>
  rq_ppa_status :: "nat set"
  rq_ctx :: pblk_ctx    \<comment> \<open>the payload of a write request\<close>
  rq_r_flags :: "iotype set"    \<comment> \<open>the payload of a read request: \<^verbatim>\<open>r_ctx->flags\<close>\<close>
  rq_orig_bio :: "nat option"    \<comment> \<open>and \<^verbatim>\<open>r_ctx->orig_bio\<close>\<close>

text \<open>A request as \<^verbatim>\<open>pblk_alloc_rqd\<close> returns it: zeroed.\<close>

definition zero_ctx :: pblk_ctx where
  "zero_ctx = \<lparr>ctx_flags = {}, c_sentry = 0, c_nr_valid = 0, c_nr_padded = 0, c_rblk = 0\<rparr>"

definition zero_rqd :: nvm_rq where
  "zero_rqd = \<lparr>rq_bio = None, rq_is_read = False, rq_ppa_addr = Ppa_empty, rq_ppa_list = [],
     rq_nr_ppas = 0, rq_has_meta = False, rq_failwrite = False, rq_ppa_status = {},
     rq_ctx = zero_ctx, rq_r_flags = {}, rq_orig_bio = None\<rparr>"

text \<open>
  Allocations and the driver can fail; which of them do is an input of the model.
\<close>

record faults =
  rqd_alloc_fails :: bool
  dma_alloc_fails :: bool
  bio_clone_fails :: bool
  submit_io_fails :: bool
  partial_read_fails :: bool
  blk_ws_alloc_fails :: bool
  rec_alloc_fails :: bool
  pad_alloc_fails :: bool
  bio_map_fails :: bool

definition no_faults :: faults where
  "no_faults = \<lparr>rqd_alloc_fails = False, dma_alloc_fails = False, bio_clone_fails = False,
     submit_io_fails = False, partial_read_fails = False, blk_ws_alloc_fails = False,
     rec_alloc_fails = False, pad_alloc_fails = False, bio_map_fails = False\<rparr>"

text \<open>
  What the code does to its collaborators (block layer, driver, allocators, work queues)
  is recorded in a trace, in order.
\<close>

datatype event =
    Bio_endio nat
  | Bio_io_error nat
  | Bio_get nat
  | Bio_put nat
  | Bio_clone nat
  | Alloc_rqd
  | Free_rqd
  | Dma_alloc
  | Dma_free
  | Submit_io "ppa_addr list"
  | Fill_partial_read "nat set"
  | Write_kick
  | Close_blk nat    \<comment> \<open>work \<^verbatim>\<open>pblk_close_blk\<close> queued for a block\<close>
  | Gc_queue nat    \<comment> \<open>work \<^verbatim>\<open>pblk_gc_queue\<close> queued for a block\<close>
  | Run_recovery nat    \<comment> \<open>\<^verbatim>\<open>pblk_run_recovery\<close> called for a block\<close>
  | Recov_setup_rq "nat list" nat    \<comment> \<open>the failed ring entries and \<^verbatim>\<open>c_entries\<close>\<close>
  | Queue_rec_work
  | Retired nat nat    \<comment> \<open>a write context left the ring: its \<^verbatim>\<open>sentry\<close> and \<^verbatim>\<open>nr_valid\<close>\<close>
  | Put_blk nat
  | Pad_submit nat nat nat    \<comment> \<open>a pad write submitted: block, \<^verbatim>\<open>nr_valid\<close>, \<^verbatim>\<open>nr_padded\<close>\<close>
  | Pr_err

text \<open>
  What other threads do while a function of this one waits for them: each \<^verbatim>\<open>schedule()\<close>
  of a retry loop lets the next of these happen.
\<close>

datatype other =
    Other_retire nat    \<comment> \<open>completions retire that many ring entries\<close>
  | Other_close_blk nat nat    \<comment> \<open>the close work takes a block off the open list of a LUN\<close>
  | Other_emergency_gc    \<comment> \<open>the provisioner turns emergency GC on\<close>
  | Other_unpin nat    \<comment> \<open>a reader releases its pin on an LBA\<close>
  | Other_idle

record pblk = pblk_geo +
  nr_blk_dsecs :: int
  pblk_nr_secs :: nat
  trans_map :: "nat \<Rightarrow> pblk_addr"
  blks :: "nat \<Rightarrow> pblk_block"
  rwb :: pblk_rb
  write_inflight :: int
  compl_list :: "nvm_rq list"
  emergency_gc :: bool
  open_lists :: "nat list list"    \<comment> \<open>the \<^verbatim>\<open>open_list\<close> of every LUN\<close>
  trace :: "event list"
  others :: "other list"

definition emit :: "event \<Rightarrow> pblk \<Rightarrow> pblk" where
  "emit e pblk = pblk\<lparr>trace := trace pblk @ [e]\<rparr>"

subsection \<open>Bios\<close>

text \<open>
  A bio with the fields the code reads: the flush flag of \<^verbatim>\<open>bi_rw\<close>, the iterator
  (\<^verbatim>\<open>bi_sector\<close>, \<^verbatim>\<open>bi_size\<close> and the index of the current page), \<^verbatim>\<open>bi_vcnt\<close> and the
  contents of its pages, one sector each.

  Modelled from the spec: \<^verbatim>\<open>PBLK_EXPOSED_PAGE_SIZE\<close>, \<^verbatim>\<open>NR_PHY_IN_LOG\<close>, \<^verbatim>\<open>pblk_get_secs\<close>
  and \<^verbatim>\<open>pblk_get_laddr\<close> come from \<^verbatim>\<open>pblk.h\<close>, which is not among the sources; they
  are taken as \<^verbatim>\<open>pblk_discard\<close> computes the same two numbers, with 4096-byte sectors on
  512-byte block-layer sectors.  No proof below depends on the two values.
\<close>

record bio =
  bio_id :: nat
  bi_preflush :: bool
  bi_sector :: nat
  bi_size :: nat
  bi_vcnt :: nat
  bi_idx :: nat
  bi_pages :: "nat list"

definition PBLK_EXPOSED_PAGE_SIZE :: nat where
  "PBLK_EXPOSED_PAGE_SIZE = 4096"

definition NR_PHY_IN_LOG :: nat where
  "NR_PHY_IN_LOG = 8"

definition pblk_get_secs :: "bio \<Rightarrow> nat" where
  "pblk_get_secs b = bi_size b div PBLK_EXPOSED_PAGE_SIZE"

definition pblk_get_laddr :: "bio \<Rightarrow> nat" where
  "pblk_get_laddr b = bi_sector b div NR_PHY_IN_LOG"

definition bio_has_data :: "bio \<Rightarrow> bool" where
  "bio_has_data b = (bi_size b \<noteq> 0)"

text \<open>\<^verbatim>\<open>bio_advance(bio, n * PBLK_EXPOSED_PAGE_SIZE)\<close>: the iterator moves on by \<open>n\<close> sectors.\<close>

definition bio_advance :: "bio \<Rightarrow> nat \<Rightarrow> bio" where
  "bio_advance b n =
     b\<lparr>bi_sector := bi_sector b + n * NR_PHY_IN_LOG,
       bi_size := bi_size b - n * PBLK_EXPOSED_PAGE_SIZE,
       bi_idx := bi_idx b + n\<rparr>"

text \<open>
  \<^verbatim>\<open>bio_data\<close>: the page under the iterator.  Past the last page the C code would read
  foreign memory; the model reads 0 there.
\<close>

definition bio_data :: "bio \<Rightarrow> nat" where
  "bio_data b = (if bi_idx b < length (bi_pages b) then bi_pages b ! bi_idx b else 0)"

subsection \<open>The write ring and the L2P update\<close>

text \<open>
  Modelled from the spec: the contract of the ring in 4.D.  \<open>may_write\<close> reserves
  \<open>nr_com\<close> slots at \<open>pos = mem\<close> and advances \<open>mem\<close>, iff
  \<open>mem + nr_com - sync \<le> capacity\<close>; \<open>write_entry\<close> copies payload and context into the
  slot of \<open>pos\<close>; \<open>wrap_pos\<close> collapses a position to its slot; \<open>w_ctx\<close> is the context
  of the entry at a position; \<open>sync_advance\<close> advances \<open>sync\<close> by \<open>n\<close> and returns the
  new value; \<open>sync_scan_entry\<close> finds a ring entry by its address.
\<close>

definition pblk_rb_wrap_pos :: "pblk_rb \<Rightarrow> nat \<Rightarrow> nat" where
  "pblk_rb_wrap_pos rb pos = pos mod rb_nr_entries rb"

definition pblk_rb_may_write :: "pblk_rb \<Rightarrow> nat \<Rightarrow> nat \<Rightarrow> (nat \<times> pblk_rb) option" where
  "pblk_rb_may_write rb nr_upd nr_com =
     (if rb_mem rb + nr_com \<le> rb_sync rb + rb_nr_entries rb
      then Some (rb_mem rb, rb\<lparr>rb_mem := rb_mem rb + nr_com\<rparr>)
      else None)"

definition pblk_rb_write_entry :: "pblk_rb \<Rightarrow> nat \<Rightarrow> pblk_w_ctx \<Rightarrow> nat \<Rightarrow> pblk_rb" where
  "pblk_rb_write_entry rb data w_ctx pos =
     rb\<lparr>rb_entries := (rb_entries rb)
        (pblk_rb_wrap_pos rb pos := \<lparr>e_data = data, e_w_ctx = w_ctx\<rparr>)\<rparr>"

definition pblk_rb_w_ctx :: "pblk_rb \<Rightarrow> nat \<Rightarrow> pblk_w_ctx" where
  "pblk_rb_w_ctx rb pos = e_w_ctx (rb_entries rb (pblk_rb_wrap_pos rb pos))"

definition pblk_rb_set_w_ctx :: "pblk_rb \<Rightarrow> nat \<Rightarrow> pblk_w_ctx \<Rightarrow> pblk_rb" where
  \<comment> \<open>a store through the pointer that \<^verbatim>\<open>pblk_rb_w_ctx\<close> returns\<close>
  "pblk_rb_set_w_ctx rb pos w =
     rb\<lparr>rb_entries := (rb_entries rb)
        (pblk_rb_wrap_pos rb pos := (rb_entries rb (pblk_rb_wrap_pos rb pos))\<lparr>e_w_ctx := w\<rparr>)\<rparr>"

definition pblk_rb_sync_init :: "pblk_rb \<Rightarrow> nat" where
  "pblk_rb_sync_init rb = rb_sync rb"

definition pblk_rb_sync_advance :: "pblk_rb \<Rightarrow> nat \<Rightarrow> nat \<times> pblk_rb" where
  "pblk_rb_sync_advance rb n = (rb_sync rb + n, rb\<lparr>rb_sync := rb_sync rb + n\<rparr>)"

definition pblk_rb_sync_scan_entry :: "pblk_rb \<Rightarrow> ppa_addr \<Rightarrow> nat option" where
  "pblk_rb_sync_scan_entry rb p =
     map_option (pblk_rb_wrap_pos rb)
       (find (\<lambda>pos. w_ppa (pblk_rb_w_ctx rb pos) = p) [rb_sync rb ..< rb_subm rb])"

text \<open>
  Modelled from the spec: \<open>sync_point_set\<close> plants a flush barrier for the bio at the
  current \<open>mem\<close>.  The spec does not give its return value; here it says whether entries
  are waiting to be retired.  Nothing below depends on it.
\<close>

definition pblk_rb_sync_point_set :: "pblk_rb \<Rightarrow> nat \<Rightarrow> bool \<times> pblk_rb" where
  "pblk_rb_sync_point_set rb b =
     (if rb_mem rb = rb_sync rb then (False, rb)
      else (True, rb\<lparr>rb_sync_point := Some (rb_mem rb, b)\<rparr>))"

text \<open>
  Modelled from the spec: \<^verbatim>\<open>pblk_rb_copy_to_bio\<close> copies the payload of a cacheline into
  the bio (4.G).  The function is given no offset, and its callers move the iterator of
  the bio first, \<^emph>\<open>to copy data to the right place\<close> as their comment says: the
  destination is the page under the iterator.
\<close>

definition pblk_rb_copy_to_bio :: "pblk_rb \<Rightarrow> bio \<Rightarrow> nat \<Rightarrow> bio" where
  "pblk_rb_copy_to_bio rb b line =
     b\<lparr>bi_pages := (bi_pages b)[bi_idx b := e_data (rb_entries rb line)]\<rparr>"

text \<open>
  Modelled from the spec: \<^verbatim>\<open>pblk_page_invalidate\<close> and \<^verbatim>\<open>pblk_update_map\<close> are not among
  the sources.  4.C: invalidation increments \<open>nr_invalid_secs\<close> of the owning block and
  sets the sector's bit in its \<open>invalid_bitmap\<close>; \<open>update\<close> returns a conflict when
  the current entry is in the cache and its read-pin is set, and otherwise invalidates
  the sector of the previously owning block and installs the new value.
\<close>

definition pblk_page_invalidate :: "pblk \<Rightarrow> pblk_addr \<Rightarrow> pblk" where
  "pblk_page_invalidate pblk gp =
     (case addr_rblk gp of
        None \<Rightarrow> pblk
      | Some b \<Rightarrow>
          pblk\<lparr>blks := (blks pblk)
            (b := (blks pblk b)
               \<lparr>nr_invalid_secs := nr_invalid_secs (blks pblk b) + 1,
                invalid_bitmap := insert (ppa_sec_in_blk (addr_ppa gp))
                                    (invalid_bitmap (blks pblk b))\<rparr>)\<rparr>)"

definition pblk_update_map :: "pblk \<Rightarrow> nat \<Rightarrow> nat option \<Rightarrow> ppa_addr \<Rightarrow> bool \<times> pblk" where
  "pblk_update_map pblk laddr rb p =
     (let gp = trans_map pblk laddr in
      if nvm_addr_in_cache (addr_ppa gp) \<and> nvm_addr_get_read_cache (addr_ppa gp)
      then (True, pblk)
      else
        (let pblk1 = (if addr_rblk gp \<noteq> None then pblk_page_invalidate pblk gp else pblk)
         in (False, pblk1\<lparr>trans_map := (trans_map pblk1)
                      (laddr := \<lparr>addr_ppa = p, addr_rblk = rb\<rparr>)\<rparr>)))"

definition pblk_emergency_gc_mode :: "pblk \<Rightarrow> bool" where
  "pblk_emergency_gc_mode pblk = emergency_gc pblk"

text \<open>
  The next step of the other threads.  Retiring \<open>n\<close> entries is what an in-order
  \<^verbatim>\<open>pblk_compl_queue\<close> does to the counter and to \<open>sync\<close>.
\<close>

fun other_step :: "other \<Rightarrow> pblk \<Rightarrow> pblk" where
  "other_step (Other_retire n) pblk =
     pblk\<lparr>write_inflight := s32_of_int (write_inflight pblk - int n),
          rwb := (rwb pblk)\<lparr>rb_sync := rb_sync (rwb pblk) + n\<rparr>\<rparr>"
| "other_step (Other_close_blk lun b) pblk =
     pblk\<lparr>open_lists := (open_lists pblk)[lun := remove1 b (open_lists pblk ! lun)]\<rparr>"
| "other_step Other_emergency_gc pblk = pblk\<lparr>emergency_gc := True\<rparr>"
| "other_step (Other_unpin l) pblk =
     pblk\<lparr>trans_map := (trans_map pblk)
        (l := (trans_map pblk l)
           \<lparr>addr_ppa := nvm_addr_set_read_cache (addr_ppa (trans_map pblk l)) False\<rparr>)\<rparr>"
| "other_step Other_idle pblk = pblk"

definition let_others_run :: "pblk \<Rightarrow> pblk" where
  "let_others_run pblk =
     (case others pblk of
        [] \<Rightarrow> pblk
      | a # as \<Rightarrow> other_step a (pblk\<lparr>others := as\<rparr>))"

definition bitmap_full :: "nat set \<Rightarrow> nat \<Rightarrow> bool" where
  "bitmap_full bm n = list_all (\<lambda>i. i \<in> bm) [0 ..< n]"

definition bitmap_empty :: "nat set \<Rightarrow> nat \<Rightarrow> bool" where
  "bitmap_empty bm n = list_all (\<lambda>i. i \<notin> bm) [0 ..< n]"

subsection \<open>The read path\<close>

datatype nvm_io = NVM_IO_OK | NVM_IO_REQUEUE | NVM_IO_DONE | NVM_IO_ERR

definition pblk_read_from_cache :: "pblk \<Rightarrow> bio \<Rightarrow> ppa_addr \<Rightarrow> bio" where
  "pblk_read_from_cache pblk b p = pblk_rb_copy_to_bio (rwb pblk) b (nvm_addr_to_cacheline p)"

definition pblk_try_read_from_cache :: "pblk \<Rightarrow> bio \<Rightarrow> ppa_addr \<Rightarrow> bool \<times> bio" where
  "pblk_try_read_from_cache pblk b p =
     (if \<not> nvm_addr_in_cache p then (False, b) else (True, pblk_read_from_cache pblk b p))"

text \<open>A store to \<^verbatim>\<open>gp->ppa\<close> of the L2P entry of an LBA.\<close>

definition set_read_pin :: "pblk \<Rightarrow> nat \<Rightarrow> bool \<Rightarrow> pblk" where
  "set_read_pin pblk l flag =
     pblk\<lparr>trans_map := (trans_map pblk)
        (l := (trans_map pblk l)
           \<lparr>addr_ppa := nvm_addr_set_read_cache (addr_ppa (trans_map pblk l)) flag\<rparr>)\<rparr>"

text \<open>
  \<^verbatim>\<open>pblk_read_rq\<close>: the read of one sector.  The result is \<open>None\<close> when a \<^verbatim>\<open>BUG_ON\<close>
  fires.  The function returns \<^verbatim>\<open>NVM_IO_OK\<close> on every path through \<^verbatim>\<open>unlock\<close>, and
  \<^verbatim>\<open>ret\<close> only on the path through \<^verbatim>\<open>out\<close>.  The local \<^verbatim>\<open>cache_read_state\<close> is written and
  never read.
\<close>

definition pblk_read_rq ::
    "pblk \<Rightarrow> bio \<Rightarrow> nvm_rq \<Rightarrow> nat \<Rightarrow> nat set \<Rightarrow> iotype set
      \<Rightarrow> (nvm_io \<times> pblk \<times> bio \<times> nvm_rq \<times> nat set) option" where
  "pblk_read_rq pblk b rqd laddr read_bitmap flags =
     (if laddr = ADDR_EMPTY then Some (NVM_IO_DONE, pblk, b, rqd, insert 0 read_bitmap)
      else if \<not> laddr < pblk_nr_secs pblk then None
      else
        (let p = addr_ppa (trans_map pblk laddr);
             lookup_cache = nvm_addr_in_cache p;
             pblk1 = (if lookup_cache then set_read_pin pblk laddr True else pblk);
             (b1, rqd1, bm1) =
               (if ppa_empty p then (b, rqd, insert 0 read_bitmap)
                else
                  (case pblk_try_read_from_cache pblk1 b p of
                     (True, b') \<Rightarrow> (b', rqd, insert 0 read_bitmap)
                   | (False, b') \<Rightarrow> (b', rqd\<lparr>rq_ppa_addr := p\<rparr>, read_bitmap)));
             pblk2 = (if lookup_cache \<and> nvm_addr_in_cache p
                      then set_read_pin pblk1 laddr False else pblk1)
         in Some (NVM_IO_OK, pblk2, b1, rqd1, bm1)))"

text \<open>
  \<^verbatim>\<open>pblk_lock_read\<close> on a copy of the entry: the entry after the call, the array
  \<^verbatim>\<open>cache_read_state\<close> after the call and the return value.
\<close>

definition pblk_lock_read :: "pblk_addr \<Rightarrow> bool list \<Rightarrow> nat \<Rightarrow> pblk_addr \<times> bool list \<times> bool" where
  "pblk_lock_read gp cache_read_state off =
     (if nvm_addr_in_cache (addr_ppa gp)
      then (gp\<lparr>addr_ppa := nvm_addr_set_read_cache (addr_ppa gp) True\<rparr>,
            cache_read_state[off := nvm_addr_get_read_cache (addr_ppa gp)], True)
      else (gp, cache_read_state, False))"

text \<open>
  The loops of \<^verbatim>\<open>pblk_setup_seq_reads\<close> and \<^verbatim>\<open>pblk_setup_rand_reads\<close>: the state of a loop
  is the driver instance, the arrays \<^verbatim>\<open>ppas\<close> and \<^verbatim>\<open>cache_read_state\<close> of the caller
  and the local \<^verbatim>\<open>locked\<close>, which every iteration that locks overwrites.
\<close>

definition setup_seq_step ::
    "nat \<Rightarrow> pblk \<times> ppa_addr list \<times> bool list \<times> bool \<Rightarrow> nat
      \<Rightarrow> pblk \<times> ppa_addr list \<times> bool list \<times> bool" where
  "setup_seq_step bladdr st i =
     (case st of (pblk, ppas, crs, locked) \<Rightarrow>
        (case pblk_lock_read (trans_map pblk (bladdr + i)) crs i of
           (gp', crs', locked') \<Rightarrow>
             (pblk\<lparr>trans_map := (trans_map pblk)(bladdr + i := gp')\<rparr>,
              ppas[i := addr_ppa (trans_map pblk (bladdr + i))], crs', locked')))"

definition pblk_setup_seq_reads ::
    "pblk \<Rightarrow> ppa_addr list \<Rightarrow> bool list \<Rightarrow> nat \<Rightarrow> nat
      \<Rightarrow> pblk \<times> ppa_addr list \<times> bool list \<times> bool" where
  "pblk_setup_seq_reads pblk ppas cache_read_state bladdr nr_secs =
     foldl (setup_seq_step bladdr) (pblk, ppas, cache_read_state, False) [0 ..< nr_secs]"

definition setup_rand_step ::
    "nat list \<Rightarrow> pblk \<times> ppa_addr list \<times> bool list \<times> bool \<Rightarrow> nat
      \<Rightarrow> pblk \<times> ppa_addr list \<times> bool list \<times> bool" where
  "setup_rand_step lbas st i =
     (case st of (pblk, ppas, crs, locked) \<Rightarrow>
        if lbas ! i = ADDR_EMPTY then st
        else
          (case pblk_lock_read (trans_map pblk (lbas ! i)) crs i of
             (gp', crs', locked') \<Rightarrow>
               (pblk\<lparr>trans_map := (trans_map pblk)(lbas ! i := gp')\<rparr>,
                ppas[i := addr_ppa (trans_map pblk (lbas ! i))], crs', locked')))"

definition pblk_setup_rand_reads ::
    "pblk \<Rightarrow> ppa_addr list \<Rightarrow> bool list \<Rightarrow> nat list \<Rightarrow> nat
      \<Rightarrow> pblk \<times> ppa_addr list \<times> bool list \<times> bool" where
  "pblk_setup_rand_reads pblk ppas cache_read_state lbas nr_secs =
     foldl (setup_rand_step lbas) (pblk, ppas, cache_read_state, False) [0 ..< nr_secs]"

text \<open>\<^verbatim>\<open>pblk_unlock_read\<close> does not use its argument \<^verbatim>\<open>off\<close>.\<close>

definition pblk_unlock_read :: "pblk_addr \<Rightarrow> nat \<Rightarrow> pblk_addr" where
  "pblk_unlock_read gp off =
     (if nvm_addr_in_cache (addr_ppa gp)
      then gp\<lparr>addr_ppa := nvm_addr_set_read_cache (addr_ppa gp) False\<rparr>
      else gp)"

definition unlock_seq_step :: "nat \<Rightarrow> pblk \<Rightarrow> nat \<Rightarrow> pblk" where
  "unlock_seq_step bladdr pblk i =
     pblk\<lparr>trans_map := (trans_map pblk)
        (bladdr + i := pblk_unlock_read (trans_map pblk (bladdr + i)) i)\<rparr>"

definition pblk_unlock_seq_reads ::
    "pblk \<Rightarrow> ppa_addr list \<Rightarrow> bool list \<Rightarrow> nat \<Rightarrow> nat \<Rightarrow> pblk" where
  "pblk_unlock_seq_reads pblk ppas cache_read_state bladdr nr_secs =
     foldl (unlock_seq_step bladdr) pblk [0 ..< nr_secs]"

definition unlock_rand_step :: "nat list \<Rightarrow> pblk \<Rightarrow> nat \<Rightarrow> pblk" where
  "unlock_rand_step lbas pblk i =
     (if lbas ! i = ADDR_EMPTY then pblk
      else pblk\<lparr>trans_map := (trans_map pblk)
             (lbas ! i := pblk_unlock_read (trans_map pblk (lbas ! i)) i)\<rparr>)"

definition pblk_unlock_rand_reads ::
    "pblk \<Rightarrow> ppa_addr list \<Rightarrow> bool list \<Rightarrow> nat list \<Rightarrow> nat \<Rightarrow> pblk" where
  "pblk_unlock_rand_reads pblk ppas cache_read_state lbas nr_secs =
     foldl (unlock_rand_step lbas) pblk [0 ..< nr_secs]"

text \<open>
  The arrays \<^verbatim>\<open>ppas\<close> and \<^verbatim>\<open>cache_read_state\<close> live on the stack of the two callers,
  \<^verbatim>\<open>PBLK_MAX_REQ_ADDRS\<close> entries each and not initialised.  An entry is read only after it
  has been written, so the model starts from arrays of fixed values.
\<close>

definition PBLK_MAX_REQ_ADDRS :: nat where
  "PBLK_MAX_REQ_ADDRS = 64"

definition stack_ppas :: "ppa_addr list" where
  "stack_ppas = replicate PBLK_MAX_REQ_ADDRS Ppa_empty"

definition stack_cache_read_state :: "bool list" where
  "stack_cache_read_state = replicate PBLK_MAX_REQ_ADDRS False"

text \<open>
  The classification loops.  Their state is the bio, the request, the read bitmap and the
  locals \<^verbatim>\<open>advanced_bio\<close>, \<^verbatim>\<open>valid_secs\<close> (in the list shape).  \<^verbatim>\<open>rqd->ppa_list[j] = *p; j++\<close>
  appends to the list of the request, which holds the first \<^verbatim>\<open>j\<close> entries of the array.
\<close>

fun read_ppalist_rq_list_loop ::
    "nat list \<Rightarrow> pblk \<Rightarrow> nat list \<Rightarrow> ppa_addr list \<Rightarrow> bio \<times> nvm_rq \<times> nat set \<times> bool \<times> nat
      \<Rightarrow> (bio \<times> nvm_rq \<times> nat set \<times> bool \<times> nat) option" where
  "read_ppalist_rq_list_loop [] pblk lbas ppas st = Some st"
| "read_ppalist_rq_list_loop (i # is) pblk lbas ppas (b, rqd, bm, advanced_bio, valid_secs) =
     (if lbas ! i = ADDR_EMPTY
      then read_ppalist_rq_list_loop is pblk lbas ppas (b, rqd, bm, advanced_bio, valid_secs)
      else if ppa_empty (ppas ! i)
      then read_ppalist_rq_list_loop is pblk lbas ppas (b, rqd, bm, advanced_bio, valid_secs)
      else if \<not> lbas ! i < pblk_nr_secs pblk then None
      else
        (let (b1, rqd1, bm1, adv1) =
               (if nvm_addr_in_cache (ppas ! i)
                then
                  (let b' = (if \<not> advanced_bio then bio_advance b valid_secs else b)
                   in (pblk_read_from_cache pblk b' (ppas ! i), rqd,
                       insert valid_secs bm, True))
                else (b, rqd\<lparr>rq_ppa_list := rq_ppa_list rqd @ [ppas ! i]\<rparr>, bm, advanced_bio));
             b2 = (if adv1 then bio_advance b1 1 else b1)
         in read_ppalist_rq_list_loop is pblk lbas ppas (b2, rqd1, bm1, adv1, valid_secs + 1)))"

definition read_ppalist_rq_list ::
    "pblk \<Rightarrow> bio \<Rightarrow> nvm_rq \<Rightarrow> nat list \<Rightarrow> nat \<Rightarrow> nat set \<Rightarrow> iotype set
      \<Rightarrow> (nat \<times> pblk \<times> bio \<times> nvm_rq \<times> nat set) option" where
  "read_ppalist_rq_list pblk b rqd lbas nr_secs read_bitmap flags =
     (case pblk_setup_rand_reads pblk stack_ppas stack_cache_read_state lbas nr_secs of
        (pblk1, ppas, crs, locked) \<Rightarrow>
          (case read_ppalist_rq_list_loop [0 ..< nr_secs] pblk1 lbas ppas
                  (b, rqd, read_bitmap, False, 0) of
             None \<Rightarrow> None
           | Some (b1, rqd1, bm1, adv, valid_secs) \<Rightarrow>
               Some (valid_secs,
                     (if locked then pblk_unlock_rand_reads pblk1 ppas crs lbas nr_secs
                      else pblk1),
                     b1, rqd1, bm1)))"

fun pblk_read_ppalist_rq_loop ::
    "nat list \<Rightarrow> pblk \<Rightarrow> ppa_addr list \<Rightarrow> bio \<times> nvm_rq \<times> nat set \<times> bool
      \<Rightarrow> bio \<times> nvm_rq \<times> nat set \<times> bool" where
  "pblk_read_ppalist_rq_loop [] pblk ppas st = st"
| "pblk_read_ppalist_rq_loop (i # is) pblk ppas (b, rqd, bm, advanced_bio) =
     (if ppa_empty (ppas ! i)
      then pblk_read_ppalist_rq_loop is pblk ppas (b, rqd, insert i bm, advanced_bio)
      else
        (let (b1, rqd1, bm1, adv1) =
               (if nvm_addr_in_cache (ppas ! i)
                then
                  (let b' = (if \<not> advanced_bio then bio_advance b i else b)
                   in (pblk_read_from_cache pblk b' (ppas ! i), rqd, insert i bm, True))
                else (b, rqd\<lparr>rq_ppa_list := rq_ppa_list rqd @ [ppas ! i]\<rparr>, bm, advanced_bio));
             b2 = (if adv1 then bio_advance b1 1 else b1)
         in pblk_read_ppalist_rq_loop is pblk ppas (b2, rqd1, bm1, adv1)))"

definition pblk_read_ppalist_rq ::
    "pblk \<Rightarrow> bio \<Rightarrow> nvm_rq \<Rightarrow> iotype set \<Rightarrow> nat \<Rightarrow> nat set
      \<Rightarrow> (nvm_io \<times> pblk \<times> bio \<times> nvm_rq \<times> nat set) option" where
  "pblk_read_ppalist_rq pblk b rqd flags nr_secs read_bitmap =
     (let laddr = pblk_get_laddr b in
      if \<not> laddr + nr_secs < pblk_nr_secs pblk then None
      else
        (case pblk_setup_seq_reads pblk stack_ppas stack_cache_read_state laddr nr_secs of
           (pblk1, ppas, crs, locked) \<Rightarrow>
             (case pblk_read_ppalist_rq_loop [0 ..< nr_secs] pblk1 ppas
                     (b, rqd, read_bitmap, False) of
                (b1, rqd1, bm1, adv) \<Rightarrow>
                  Some (NVM_IO_OK,
                        (if locked then pblk_unlock_seq_reads pblk1 ppas crs laddr nr_secs
                         else pblk1),
                        b1, rqd1, bm1))))"

text \<open>
  \<^verbatim>\<open>pblk_submit_read_io\<close> hands the request to the driver.  The completion of a device read
  comes later, through \<^verbatim>\<open>pblk_end_io\<close>; the model records the submission with the
  addresses asked for.
\<close>

definition rqd_ppas :: "nvm_rq \<Rightarrow> ppa_addr list" where
  "rqd_ppas rqd = (if rq_nr_ppas rqd > 1 then rq_ppa_list rqd else [rq_ppa_addr rqd])"

definition pblk_submit_read_io ::
    "faults \<Rightarrow> pblk \<Rightarrow> nat option \<Rightarrow> nvm_rq \<Rightarrow> nvm_io \<times> pblk" where
  "pblk_submit_read_io flt pblk b rqd =
     (if submit_io_fails flt
      then (NVM_IO_ERR,
            (case b of None \<Rightarrow> emit Pr_err pblk
             | Some i \<Rightarrow> emit (Bio_put i) (emit Pr_err pblk)))
      else (NVM_IO_OK, emit (Submit_io (rqd_ppas rqd)) pblk))"

text \<open>
  \<^verbatim>\<open>__pblk_submit_read\<close>.  The cloned bio is named by the number after the original's.
  \<^verbatim>\<open>pblk_fill_partial_read_bio\<close> (the synchronous read of the holes and their merge into
  the bio) is not embedded: its call is recorded as one event with the read bitmap.
\<close>

definition pblk_submit_read_inner ::
    "faults \<Rightarrow> pblk \<Rightarrow> nvm_rq \<Rightarrow> bio \<Rightarrow> nat set \<Rightarrow> iotype set \<Rightarrow> nat \<Rightarrow> bool
      \<Rightarrow> nvm_io \<times> pblk" where
  "pblk_submit_read_inner flt pblk rqd b read_bitmap flags nr_secs clone_read =
     (let fail_ppa_free = (\<lambda>ret p.
            (ret, if nr_secs > 1 \<and> PBLK_IOTYPE_GC \<notin> flags then emit Dma_free p else p))
      in
      if bitmap_empty read_bitmap nr_secs then
        (if clone_read \<and> bio_clone_fails flt then fail_ppa_free NVM_IO_OK (emit Pr_err pblk)
         else
           (let int_bio = (if clone_read then Some (Suc (bio_id b)) else None);
                pblk1 = (if clone_read then emit (Bio_clone (Suc (bio_id b))) pblk else pblk);
                rqd1 = (if clone_read
                        then rqd\<lparr>rq_bio := int_bio, rq_orig_bio := Some (bio_id b)\<rparr>
                        else rqd)
            in case pblk_submit_read_io flt pblk1 int_bio rqd1 of
                 (NVM_IO_OK, pblk2) \<Rightarrow> (NVM_IO_OK, pblk2)
               | (ret, pblk2) \<Rightarrow>
                   fail_ppa_free ret
                     (case int_bio of None \<Rightarrow> emit Pr_err pblk2
                      | Some i \<Rightarrow> emit (Bio_put i) (emit Pr_err pblk2))))
      else
        (if partial_read_fails flt
         then fail_ppa_free NVM_IO_ERR (emit Pr_err (emit (Fill_partial_read read_bitmap) pblk))
         else (NVM_IO_OK, emit (Fill_partial_read read_bitmap) pblk)))"

text \<open>\<^verbatim>\<open>pblk_end_io_read\<close>, the completion of a read request.\<close>

definition pblk_end_io_read :: "pblk \<Rightarrow> nvm_rq \<Rightarrow> nat \<Rightarrow> pblk" where
  "pblk_end_io_read pblk rqd nr_secs =
     (if PBLK_IOTYPE_SYNC \<in> rq_r_flags rqd then pblk
      else
        (let p1 = (if nr_secs > 1 then emit Dma_free pblk else pblk);
             p2 = (if rq_has_meta rqd then emit Dma_free p1 else p1);
             p3 = (case rq_bio rqd of None \<Rightarrow> p2 | Some i \<Rightarrow> emit (Bio_put i) p2);
             p4 = (case rq_orig_bio rqd of None \<Rightarrow> p3
                   | Some i \<Rightarrow> emit (Bio_put i) (emit (Bio_endio i) p3))
         in emit Free_rqd p4))"

text \<open>
  \<^verbatim>\<open>pblk_submit_read\<close>, the entry point for reads.  The result holds the return value, the
  driver instance and the bio; \<open>None\<close> stands for a \<^verbatim>\<open>BUG_ON\<close> that fired.
\<close>

definition pblk_submit_read ::
    "faults \<Rightarrow> pblk \<Rightarrow> bio \<Rightarrow> iotype set \<Rightarrow> (nvm_io \<times> pblk \<times> bio) option" where
  "pblk_submit_read flt pblk b flags =
     (let nr_secs = pblk_get_secs b in
      if nr_secs \<noteq> bi_vcnt b then Some (NVM_IO_ERR, pblk, b)
      else if rqd_alloc_fails flt
      then Some (NVM_IO_ERR, emit (Bio_io_error (bio_id b)) (emit Pr_err pblk), b)
      else
        (let pblk0 = emit Alloc_rqd pblk;
             classified =
               (if nr_secs > 1 then
                  (if dma_alloc_fails flt
                   then Some (NVM_IO_ERR, emit Pr_err pblk0, b, zero_rqd, {})
                   else
                     (case pblk_read_ppalist_rq (emit Dma_alloc pblk0) b zero_rqd flags nr_secs {} of
                        None \<Rightarrow> None
                      | Some (r, p, b', rqd, bm) \<Rightarrow> Some (NVM_IO_OK, p, b', rqd, bm)))
                else pblk_read_rq pblk0 b zero_rqd (pblk_get_laddr b) {} flags)
         in case classified of
              None \<Rightarrow> None
            | Some (NVM_IO_OK, pblk1, b1, rqd1, bm) \<Rightarrow>
                (let rqd2 = rqd1\<lparr>rq_bio := Some (bio_id b), rq_is_read := True,
                                 rq_nr_ppas := nr_secs, rq_r_flags := flags\<rparr>;
                     pblk2 = emit (Bio_get (bio_id b)) pblk1
                 in if bitmap_full bm nr_secs
                    then Some (NVM_IO_OK,
                               pblk_end_io_read (emit (Bio_endio (bio_id b)) pblk2) rqd2
                                 (nr_secs mod 256),
                               b1)
                    else (case pblk_submit_read_inner flt pblk2 rqd2 b1 bm flags nr_secs True of
                            (ret, pblk3) \<Rightarrow> Some (ret, pblk3, b1)))
            | Some (ret, pblk1, b1, rqd1, bm) \<Rightarrow> Some (ret, emit Free_rqd pblk1, b1)))"

subsection \<open>Write admission\<close>

text \<open>
  The \<^verbatim>\<open>try:\<close> loop of \<^verbatim>\<open>pblk_write_to_cache\<close>: the update of the map is repeated, with a
  \<^verbatim>\<open>schedule()\<close> in between, for as long as it reports a conflict.  The loop does not
  return when the conflict never goes away.
\<close>

partial_function (option) pblk_update_map_retry :: "pblk \<Rightarrow> nat \<Rightarrow> ppa_addr \<Rightarrow> pblk option" where
  "pblk_update_map_retry pblk laddr p =
     (if fst (pblk_update_map pblk laddr None p)
      then pblk_update_map_retry (let_others_run pblk) laddr p
      else Some (snd (pblk_update_map pblk laddr None p)))"

declare pblk_update_map_retry.simps [code]

fun pblk_write_to_cache_loop ::
    "nat list \<Rightarrow> nat \<Rightarrow> nat \<Rightarrow> pblk_w_ctx \<Rightarrow> pblk \<Rightarrow> bio \<Rightarrow> (pblk \<times> bio) option" where
  "pblk_write_to_cache_loop [] laddr pos w_ctx pblk b = Some (pblk, b)"
| "pblk_write_to_cache_loop (i # is) laddr pos w_ctx pblk b =
     (let w = w_ctx\<lparr>w_lba := laddr + i\<rparr>;
          pblk1 = pblk\<lparr>rwb := pblk_rb_write_entry (rwb pblk) (bio_data b) w (pos + i)\<rparr>;
          p = pblk_cacheline_to_ppa (pblk_rb_wrap_pos (rwb pblk1) (pos + i))
      in case pblk_update_map_retry pblk1 (laddr + i) p of
           None \<Rightarrow> None
         | Some pblk2 \<Rightarrow>
             pblk_write_to_cache_loop is laddr pos w (pblk2) (bio_advance b 1))"

text \<open>
  \<^verbatim>\<open>pblk_write_to_cache\<close>.  \<^verbatim>\<open>w_ctx.ppa.rblk\<close> is left as it was on the stack; the model
  puts 0 there.
\<close>

definition pblk_write_to_cache ::
    "pblk \<Rightarrow> bio \<Rightarrow> iotype set \<Rightarrow> nat \<Rightarrow> (nvm_io \<times> pblk \<times> bio) option" where
  "pblk_write_to_cache pblk b flags nr_entries =
     (let laddr = pblk_get_laddr b;
          ctx_bio = (if bi_preflush b then Some (bio_id b) else None);
          ret = (if ctx_bio \<noteq> None then NVM_IO_OK else NVM_IO_DONE)
      in case pblk_rb_may_write (rwb pblk) nr_entries nr_entries of
           None \<Rightarrow> Some (NVM_IO_REQUEUE, pblk, b)
         | Some (pos, rb) \<Rightarrow>
             (let w_ctx = \<lparr>w_bio = ctx_bio, w_lba = 0, w_flags = flags, w_priv = None,
                           w_paddr = 0, w_ppa = Ppa_empty, w_rblk = 0\<rparr>
              in case pblk_write_to_cache_loop [0 ..< nr_entries] laddr pos w_ctx
                        (pblk\<lparr>rwb := rb\<rparr>) b of
                   None \<Rightarrow> None
                 | Some (pblk', b') \<Rightarrow> Some (ret, pblk', b')))"

text \<open>
  \<^verbatim>\<open>pblk_may_submit_write\<close> inside the driver instance: the attempts are those of
  \<open>pblk_may_submit_write_try\<close> on the counter, and a writer that waits lets the other
  threads run.
\<close>

partial_function (option) pblk_may_submit_write_st :: "pblk \<Rightarrow> int \<Rightarrow> pblk option" where
  "pblk_may_submit_write_st pblk nr_secs =
     (if fst (pblk_may_submit_write_try (write_inflight pblk) nr_secs [])
      then Some (pblk\<lparr>write_inflight :=
                    snd (pblk_may_submit_write_try (write_inflight pblk) nr_secs [])\<rparr>)
      else pblk_may_submit_write_st (let_others_run pblk) nr_secs)"

declare pblk_may_submit_write_st.simps [code]

text \<open>
  The \<^verbatim>\<open>retry:\<close> loop of \<^verbatim>\<open>pblk_buffer_write\<close>: it leaves with \<^verbatim>\<open>NVM_IO_REQUEUE\<close> when the
  driver is in emergency GC mode, and goes round again, without sleeping, when
  \<^verbatim>\<open>pblk_write_to_cache\<close> returned \<^verbatim>\<open>NVM_IO_REQUEUE\<close>.  The other threads take a step
  between two rounds.
\<close>

partial_function (option) pblk_buffer_write_retry ::
    "pblk \<Rightarrow> bio \<Rightarrow> iotype set \<Rightarrow> nat \<Rightarrow> (nvm_io \<times> pblk \<times> bio) option" where
  "pblk_buffer_write_retry pblk b flags nr_secs =
     (if pblk_emergency_gc_mode pblk then Some (NVM_IO_REQUEUE, pblk, b)
      else
        (case pblk_write_to_cache pblk b flags nr_secs of
           None \<Rightarrow> None
         | Some (ret, pblk1, b1) \<Rightarrow>
             if ret = NVM_IO_REQUEUE
             then pblk_buffer_write_retry (let_others_run pblk1) b1 flags nr_secs
             else
               (case pblk_may_submit_write_st pblk1 (int nr_secs) of
                  None \<Rightarrow> None
                | Some pblk2 \<Rightarrow>
                    Some (ret, if bi_preflush b1 then emit Write_kick pblk2 else pblk2, b1))))"

declare pblk_buffer_write_retry.simps [code]

text \<open>\<^verbatim>\<open>pblk_buffer_write\<close>; \<^verbatim>\<open>nr_secs\<close> is a \<^verbatim>\<open>uint8_t\<close>.\<close>

definition pblk_buffer_write ::
    "pblk \<Rightarrow> bio \<Rightarrow> iotype set \<Rightarrow> (nvm_io \<times> pblk \<times> bio) option" where
  "pblk_buffer_write pblk b flags =
     (let nr_secs = pblk_get_secs b mod 256 in
      if bi_preflush b \<and> \<not> bio_has_data b then
        (case pblk_rb_sync_point_set (rwb pblk) (bio_id b) of
           (planted, rb) \<Rightarrow>
             Some (if planted then NVM_IO_OK else NVM_IO_DONE,
                   emit Write_kick (pblk\<lparr>rwb := rb\<rparr>), b))
      else pblk_buffer_write_retry pblk b flags nr_secs)"

subsection \<open>Discard\<close>

text \<open>
  One round of the loop of \<^verbatim>\<open>pblk_invalidate_range\<close>, and the loop.  The C code does not
  check the range against the size of the map; the model has no result (\<open>None\<close>) for a
  range that leaves the map.
\<close>

definition pblk_invalidate_one :: "pblk \<Rightarrow> nat \<Rightarrow> pblk" where
  "pblk_invalidate_one pblk i =
     (let gp = trans_map pblk i;
          pblk1 = (if addr_rblk gp \<noteq> None then pblk_page_invalidate pblk gp else pblk)
      in pblk1\<lparr>trans_map := (trans_map pblk1)(i := \<lparr>addr_ppa = Ppa_empty, addr_rblk = None\<rparr>)\<rparr>)"

definition pblk_invalidate_range :: "pblk \<Rightarrow> nat \<Rightarrow> nat \<Rightarrow> pblk option" where
  "pblk_invalidate_range pblk slba nr_secs =
     (if slba + nr_secs \<le> pblk_nr_secs pblk
      then Some (foldl pblk_invalidate_one pblk [slba ..< slba + nr_secs])
      else None)"

definition pblk_discard :: "pblk \<Rightarrow> bio \<Rightarrow> pblk option" where
  "pblk_discard pblk b =
     pblk_invalidate_range pblk (bi_sector b div NR_PHY_IN_LOG)
       (bi_size b div PBLK_EXPOSED_PAGE_SIZE)"

subsection \<open>Write completion\<close>

text \<open>
  \<^verbatim>\<open>pblk_run_blk_ws\<close> queues a work item for a block, unless its allocation fails.
\<close>

definition pblk_run_blk_ws :: "faults \<Rightarrow> pblk \<Rightarrow> event \<Rightarrow> pblk" where
  "pblk_run_blk_ws flt pblk work =
     (if blk_ws_alloc_fails flt then emit Pr_err pblk else emit work pblk)"

definition pblk_sync_buffer :: "faults \<Rightarrow> pblk \<Rightarrow> nat \<Rightarrow> nat \<Rightarrow> pblk" where
  "pblk_sync_buffer flt pblk rb block_ppa =
     (let pblk1 = pblk\<lparr>blks := (blks pblk)
            (rb := (blks pblk rb)\<lparr>sync_bitmap := insert block_ppa (sync_bitmap (blks pblk rb))\<rparr>)\<rparr>
      in if bitmap_full (sync_bitmap (blks pblk1 rb)) (nat (nr_blk_dsecs pblk1))
         then pblk_run_blk_ws flt pblk1 (Close_blk rb)
         else pblk1)"

text \<open>
  One round of the loop of \<^verbatim>\<open>pblk_end_w_bio\<close> over the entries of the request, and the
  function.  The trace records, with \<open>Retired\<close>, the context for which \<open>sync\<close> is
  advanced.
\<close>

definition end_w_bio_step :: "faults \<Rightarrow> nat \<Rightarrow> pblk \<Rightarrow> nat \<Rightarrow> pblk" where
  "end_w_bio_step flt sentry pblk i =
     (let w = pblk_rb_w_ctx (rwb pblk) (sentry + i);
          pblk1 = pblk_sync_buffer flt pblk (w_rblk w) (w_paddr w)
      in case w_bio w of
           None \<Rightarrow> pblk1
         | Some original_bio \<Rightarrow>
             (emit (Bio_endio original_bio) pblk1)
               \<lparr>rwb := pblk_rb_set_w_ctx (rwb pblk1) (sentry + i) (w\<lparr>w_bio := None\<rparr>)\<rparr>)"

definition pblk_end_w_bio :: "faults \<Rightarrow> pblk \<Rightarrow> nvm_rq \<Rightarrow> nat \<times> pblk" where
  "pblk_end_w_bio flt pblk rqd =
     (let nr_entries = c_nr_valid (rq_ctx rqd);
          pblk1 = foldl (end_w_bio_step flt (c_sentry (rq_ctx rqd))) pblk [0 ..< nr_entries];
          (ret, rb) = pblk_rb_sync_advance (rwb pblk1) nr_entries;
          pblk2 = emit (Retired (c_sentry (rq_ctx rqd)) nr_entries) (pblk1\<lparr>rwb := rb\<rparr>);
          pblk3 = (if nr_entries > 1 then emit Dma_free pblk2 else pblk2);
          pblk4 = (if rq_has_meta rqd then emit Dma_free pblk3 else pblk3);
          pblk5 = (case rq_bio rqd of None \<Rightarrow> pblk4 | Some i \<Rightarrow> emit (Bio_put i) pblk4)
      in (ret, emit Free_rqd pblk5))"

text \<open>
  The \<^verbatim>\<open>retry:\<close> loop of \<^verbatim>\<open>pblk_compl_queue\<close>: the first queued context whose \<^verbatim>\<open>sentry\<close> is
  the current position is taken off the list (\<^verbatim>\<open>pblk_end_queued_w_bio\<close>) and retired, and
  the scan starts again.  The second argument is the list \<^verbatim>\<open>compl_list\<close> of the instance.
\<close>

function pblk_compl_drain :: "faults \<Rightarrow> nat \<Rightarrow> nvm_rq list \<Rightarrow> pblk \<Rightarrow> pblk" where
  "pblk_compl_drain flt pos cl pblk =
     (case find (\<lambda>c. c_sentry (rq_ctx c) = pos) cl of
        None \<Rightarrow> pblk
      | Some c \<Rightarrow>
          (case pblk_end_w_bio flt (pblk\<lparr>compl_list := remove1 c cl\<rparr>) c of
             (pos', pblk') \<Rightarrow> pblk_compl_drain flt pos' (remove1 c cl) pblk'))"
  by pat_completeness auto
termination
proof (relation "measure (\<lambda>(flt, pos, cl, pblk). length cl)")
  show "wf (measure (\<lambda>(flt, pos, cl, pblk). length cl))" by simp
next
  fix flt :: faults and pos :: nat and cl :: "nvm_rq list" and pblk :: pblk
    and c x y
  assume "find (\<lambda>c. c_sentry (rq_ctx c) = pos) cl = Some c"
  then have c: "c \<in> set cl" by (auto simp: find_Some_iff)
  then have "0 < length cl" by (cases cl) auto
  with c have "length (remove1 c cl) < length cl" by (simp add: length_remove1)
  then show "((flt, x, remove1 c cl, y), flt, pos, cl, pblk)
        \<in> measure (\<lambda>(flt, pos, cl, pblk). length cl)" by simp
qed

declare pblk_compl_drain.simps [simp del]

text \<open>
  \<^verbatim>\<open>pblk_compl_queue\<close>.  \<^verbatim>\<open>atomic_sub\<close> on the 32-bit counter wraps.
  \<^verbatim>\<open>pblk_rb_sync_init\<close> and \<^verbatim>\<open>pblk_rb_sync_end\<close> take and release the lock of \<open>sync\<close>; the
  former returns the current position.
\<close>

definition pblk_compl_queue :: "faults \<Rightarrow> pblk \<Rightarrow> nvm_rq \<Rightarrow> pblk" where
  "pblk_compl_queue flt pblk rqd =
     (let pblk1 = pblk\<lparr>write_inflight :=
                   s32_of_int (write_inflight pblk - int (c_nr_valid (rq_ctx rqd)))\<rparr>;
          pos = pblk_rb_sync_init (rwb pblk1)
      in if c_sentry (rq_ctx rqd) = pos
         then (case pblk_end_w_bio flt pblk1 rqd of
                 (pos', pblk2) \<Rightarrow> pblk_compl_drain flt pos' (compl_list pblk2) pblk2)
         else pblk1\<lparr>compl_list := compl_list pblk1 @ [rqd]\<rparr>)"

subsection \<open>Write failure\<close>

definition pblk_end_close_blk_bio :: "faults \<Rightarrow> pblk \<Rightarrow> nvm_rq \<Rightarrow> bool \<Rightarrow> pblk" where
  "pblk_end_close_blk_bio flt pblk rqd run_gc =
     (let p1 = (if run_gc then pblk_run_blk_ws flt pblk (Gc_queue (c_rblk (rq_ctx rqd)))
                else pblk);
          p2 = emit Dma_free p1;
          p3 = (case rq_bio rqd of None \<Rightarrow> p2 | Some i \<Rightarrow> emit (Bio_put i) p2)
      in emit Free_rqd p3)"

text \<open>\<^verbatim>\<open>find_first_bit(comp_bits, nr_ppas)\<close>: the lowest set bit, or \<^verbatim>\<open>nr_ppas\<close> if there is none.\<close>

definition find_first_bit :: "nat set \<Rightarrow> nat \<Rightarrow> nat" where
  "find_first_bit bm n = (case filter (\<lambda>i. i \<in> bm) [0 ..< n] of [] \<Rightarrow> n | i # is \<Rightarrow> i)"

text \<open>
  The \<^verbatim>\<open>while\<close> loop of \<^verbatim>\<open>pblk_end_w_fail\<close> over the set bits of \<^verbatim>\<open>ppa_status\<close>, lowest
  first.  Its state is the driver instance, the list \<^verbatim>\<open>recovery->failed\<close> (ring slots)
  and \<^verbatim>\<open>prev_ppa\<close>.  \<^verbatim>\<open>goto out\<close> leaves the loop.  \<^verbatim>\<open>pblk_run_recovery\<close> is not among the
  sources; its call is recorded in the trace.
\<close>

fun end_w_fail_loop ::
    "nat list \<Rightarrow> nvm_rq \<Rightarrow> pblk \<times> nat list \<times> ppa_addr \<Rightarrow> pblk \<times> nat list \<times> ppa_addr" where
  "end_w_fail_loop [] rqd st = st"
| "end_w_fail_loop (i # bits) rqd (pblk, failed, prev_ppa) =
     (if i > c_nr_valid (rq_ctx rqd) then (pblk, failed, prev_ppa)
      else
        (let p = rq_ppa_list rqd ! i in
         case pblk_rb_sync_scan_entry (rwb pblk) p of
           None \<Rightarrow> end_w_fail_loop bits rqd (emit Pr_err pblk, failed, prev_ppa)
         | Some entry \<Rightarrow>
             if ppa_cmp_blk p prev_ppa
             then end_w_fail_loop bits rqd (pblk, failed @ [entry], prev_ppa)
             else end_w_fail_loop bits rqd
                    (emit (Run_recovery (w_rblk (e_w_ctx (rb_entries (rwb pblk) entry)))) pblk,
                     failed @ [entry], p)))"

text \<open>
  \<^verbatim>\<open>pblk_end_w_fail\<close>.  Modelled from the spec: \<^verbatim>\<open>pblk_recov_setup_rq\<close> is not among the
  sources.  By 4.J it sets up the new request for the failed sectors, and the request
  that failed then retires its successful prefix through the completion queue: the call
  is recorded in the trace, and the context goes on with \<^verbatim>\<open>c_entries\<close> valid entries.
\<close>

definition pblk_end_w_fail :: "faults \<Rightarrow> pblk \<Rightarrow> nvm_rq \<Rightarrow> pblk" where
  "pblk_end_w_fail flt pblk rqd =
     (if PBLK_IOTYPE_CLOSE_BLK \<in> ctx_flags (rq_ctx rqd)
      then pblk_end_close_blk_bio flt (emit (Run_recovery (c_rblk (rq_ctx rqd))) pblk) rqd False
      else if rq_nr_ppas rqd = 1 then pblk
      else if rec_alloc_fails flt then emit Pr_err pblk
      else
        (let c_entries = find_first_bit (rq_ppa_status rqd) (rq_nr_ppas rqd)
         in case end_w_fail_loop (filter (\<lambda>i. i \<in> rq_ppa_status rqd) [0 ..< rq_nr_ppas rqd])
                   rqd (pblk, [], Ppa_empty) of
              (p1, failed, prev_ppa) \<Rightarrow>
                pblk_compl_queue flt
                  (emit Queue_rec_work (emit (Recov_setup_rq failed c_entries) p1))
                  (rqd\<lparr>rq_ctx := (rq_ctx rqd)\<lparr>c_nr_valid := c_entries\<rparr>\<rparr>)))"

definition pblk_end_io_write :: "faults \<Rightarrow> pblk \<Rightarrow> nvm_rq \<Rightarrow> pblk" where
  "pblk_end_io_write flt pblk rqd =
     (if rq_failwrite rqd then pblk_end_w_fail flt pblk rqd
      else if PBLK_IOTYPE_SYNC \<in> ctx_flags (rq_ctx rqd) then pblk
      else if PBLK_IOTYPE_CLOSE_BLK \<in> ctx_flags (rq_ctx rqd)
      then pblk_end_close_blk_bio flt pblk rqd True
      else pblk_compl_queue flt pblk rqd)"

definition pblk_end_io :: "faults \<Rightarrow> pblk \<Rightarrow> nvm_rq \<Rightarrow> pblk" where
  "pblk_end_io flt pblk rqd =
     (if rq_is_read rqd then pblk_end_io_read pblk rqd (rq_nr_ppas rqd mod 256)
      else pblk_end_io_write flt pblk rqd)"

subsection \<open>Padding the open blocks at teardown\<close>

definition bitmap_weight :: "nat set \<Rightarrow> nat \<Rightarrow> nat" where
  "bitmap_weight bm n = length (filter (\<lambda>i. i \<in> bm) [0 ..< n])"

definition pblk_nr_free_secs :: "pblk \<Rightarrow> nat \<Rightarrow> int" where
  "pblk_nr_free_secs pblk rb =
     nr_blk_dsecs pblk
       - int (bitmap_weight (sector_bitmap (blks pblk rb)) (nat (nr_blk_dsecs pblk)))"

text \<open>
  Modelled from the spec: \<^verbatim>\<open>block_is_full\<close> comes from \<^verbatim>\<open>pblk.h\<close>, which is not among the
  sources; by the spec (3) a block is full when \<open>cur_sec\<close> has reached \<open>nr_blk_dsecs\<close>.
\<close>

definition block_is_full :: "pblk \<Rightarrow> nat \<Rightarrow> bool" where
  "block_is_full pblk rb = (int (cur_sec (blks pblk rb)) = nr_blk_dsecs pblk)"

definition pblk_next_base_sec :: "pblk \<Rightarrow> nat \<Rightarrow> nat \<Rightarrow> nat \<times> pblk" where
  "pblk_next_base_sec pblk rb n =
     (cur_sec (blks pblk rb),
      pblk\<lparr>blks := (blks pblk)
        (rb := (blks pblk rb)
           \<lparr>sector_bitmap := sector_bitmap (blks pblk rb)
                               \<union> set [cur_sec (blks pblk rb) ..< cur_sec (blks pblk rb) + n],
            cur_sec := cur_sec (blks pblk rb) + n\<rparr>)\<rparr>)"

text \<open>\<^verbatim>\<open>pblk_alloc_page\<close>: no result stands for \<^verbatim>\<open>ADDR_EMPTY\<close>.\<close>

definition pblk_alloc_page :: "pblk \<Rightarrow> nat \<Rightarrow> nat option \<times> pblk" where
  "pblk_alloc_page pblk rb =
     (if block_is_full pblk rb then (None, pblk)
      else (case pblk_next_base_sec pblk rb (nat (min_write_pgs pblk)) of
              (addr, pblk') \<Rightarrow> (Some addr, pblk')))"

definition pblk_page_pad_invalidate :: "faults \<Rightarrow> pblk \<Rightarrow> nat \<Rightarrow> nat \<Rightarrow> pblk" where
  "pblk_page_pad_invalidate flt pblk rb a =
     (let pblk1 = pblk\<lparr>blks := (blks pblk)
            (rb := (blks pblk rb)
               \<lparr>nr_invalid_secs := nr_invalid_secs (blks pblk rb) + 1,
                invalid_bitmap := insert a (invalid_bitmap (blks pblk rb)),
                sync_bitmap := insert a (sync_bitmap (blks pblk rb))\<rparr>)\<rparr>
      in if bitmap_full (sync_bitmap (blks pblk1 rb)) (nat (nr_blk_dsecs pblk1))
         then pblk_run_blk_ws flt pblk1 (Close_blk rb)
         else pblk1)"

text \<open>
  One round of the loop of \<^verbatim>\<open>pblk_map_page\<close> for the sector \<open>i\<close> of the page that starts at
  \<open>base\<close>: a valid sector is recorded in the context of its ring entry and in the LBA
  list of the block, a padded one is marked empty and invalidated.  The state is the
  instance and the addresses given out so far.
\<close>

definition map_page_step ::
    "faults \<Rightarrow> nat \<Rightarrow> nat \<Rightarrow> nat \<Rightarrow> nat \<Rightarrow> pblk \<times> ppa_addr list \<Rightarrow> nat \<Rightarrow> pblk \<times> ppa_addr list" where
  "map_page_step flt rb sentry valid_secs base st i =
     (case st of (pblk, ppas) \<Rightarrow>
        (let paddr = base + i;
             p = Ppa_dev (b_ch (blks pblk rb)) (b_lun (blks pblk rb)) rb paddr
         in if i < valid_secs then
              (let w = pblk_rb_w_ctx (rwb pblk) (sentry + i);
                   pblk1 = pblk\<lparr>rwb := pblk_rb_set_w_ctx (rwb pblk) (sentry + i)
                                  (w\<lparr>w_paddr := paddr, w_ppa := p, w_rblk := rb\<rparr>)\<rparr>
               in (pblk1\<lparr>blks := (blks pblk1)
                      (rb := (blks pblk1 rb)
                         \<lparr>lba_list := (lba_list (blks pblk1 rb))(paddr := w_lba w),
                          nr_lbas := nr_lbas (blks pblk1 rb) + 1\<rparr>)\<rparr>,
                   ppas @ [p]))
            else
              (let pblk1 = pblk\<lparr>blks := (blks pblk)
                     (rb := (blks pblk rb)
                        \<lparr>lba_list := (lba_list (blks pblk rb))(paddr := ADDR_EMPTY)\<rparr>)\<rparr>;
                   pblk2 = pblk_page_pad_invalidate flt pblk1 rb paddr
               in (pblk2\<lparr>blks := (blks pblk2)
                      (rb := (blks pblk2 rb)\<lparr>nr_padded := nr_padded (blks pblk2 rb) + 1\<rparr>)\<rparr>,
                   ppas @ [p]))))"

text \<open>
  \<^verbatim>\<open>pblk_map_page\<close>: \<open>True\<close> stands for the return value \<^verbatim>\<open>-EINVAL\<close>.  The address can be
  \<^verbatim>\<open>ADDR_EMPTY\<close> in the first round only.
\<close>

definition pblk_map_page ::
    "faults \<Rightarrow> pblk \<Rightarrow> nat \<Rightarrow> nat \<Rightarrow> nat \<Rightarrow> nat \<Rightarrow> bool \<times> pblk \<times> ppa_addr list" where
  "pblk_map_page flt pblk rb sentry nr_secs valid_secs =
     (case pblk_alloc_page pblk rb of
        (None, pblk1) \<Rightarrow> if nr_secs = 0 then (False, pblk1, []) else (True, emit Pr_err pblk1, [])
      | (Some base, pblk1) \<Rightarrow>
          (case foldl (map_page_step flt rb sentry valid_secs base) (pblk1, []) [0 ..< nr_secs] of
             (pblk2, ppas) \<Rightarrow> (False, pblk2, ppas)))"

text \<open>
  \<^verbatim>\<open>pblk_alloc_w_rq\<close> and \<^verbatim>\<open>pblk_setup_pad_rq\<close>.  \<open>None\<close> stands for a \<^verbatim>\<open>BUG_ON\<close> that fired
  (a request of one padded sector, or a page that could not be mapped) and for the loop
  over the pages that does not end when \<^verbatim>\<open>min_write_pgs\<close> is not positive.  The geometry
  field \<^verbatim>\<open>sec_per_pl\<close> of the device is not modelled.
\<close>

definition pblk_alloc_w_rq :: "faults \<Rightarrow> pblk \<Rightarrow> nvm_rq \<Rightarrow> nat \<Rightarrow> bool \<times> pblk \<times> nvm_rq" where
  "pblk_alloc_w_rq flt pblk rqd nr_secs =
     (if dma_alloc_fails flt then (True, emit Pr_err pblk, rqd\<lparr>rq_nr_ppas := nr_secs\<rparr>)
      else if nr_secs = 1
      then (False, emit Dma_alloc pblk, rqd\<lparr>rq_nr_ppas := nr_secs, rq_has_meta := True\<rparr>)
      else (False, emit Dma_alloc (emit Dma_alloc pblk),
            rqd\<lparr>rq_nr_ppas := nr_secs, rq_has_meta := True\<rparr>))"

text \<open>
  The values of \<^verbatim>\<open>i\<close> in \<^verbatim>\<open>for (i = 0; i < nr_secs; i += min)\<close>, for a positive \<^verbatim>\<open>min\<close>.
\<close>

definition page_starts :: "nat \<Rightarrow> nat \<Rightarrow> nat list" where
  "page_starts nr_secs mn = map (\<lambda>j. j * mn) [0 ..< (nr_secs + mn - 1) div mn]"

fun setup_pad_pages ::
    "faults \<Rightarrow> nat \<Rightarrow> nat \<Rightarrow> nat list \<Rightarrow> pblk \<times> nvm_rq \<Rightarrow> (pblk \<times> nvm_rq) option" where
  "setup_pad_pages flt rb mn [] st = Some st"
| "setup_pad_pages flt rb mn (i # is) (pblk, rqd) =
     (case pblk_map_page flt pblk rb (c_sentry (rq_ctx rqd) + i) mn 0 of
        (True, pblk1, ppas) \<Rightarrow> None
      | (False, pblk1, ppas) \<Rightarrow>
          setup_pad_pages flt rb mn is (pblk1, rqd\<lparr>rq_ppa_list := rq_ppa_list rqd @ ppas\<rparr>))"

definition pblk_setup_pad_rq ::
    "faults \<Rightarrow> pblk \<Rightarrow> nat \<Rightarrow> nvm_rq \<Rightarrow> (bool \<times> pblk \<times> nvm_rq) option" where
  "pblk_setup_pad_rq flt pblk rb rqd =
     (let valid_secs = c_nr_valid (rq_ctx rqd);
          padded_secs = c_nr_padded (rq_ctx rqd);
          nr_secs = valid_secs + padded_secs
      in case pblk_alloc_w_rq flt pblk rqd nr_secs of
           (True, pblk1, rqd1) \<Rightarrow> Some (True, pblk1, rqd1)
         | (False, pblk1, rqd1) \<Rightarrow>
             if nr_secs = 1 then
               (if padded_secs \<noteq> 0 then None
                else (case pblk_map_page flt pblk1 rb (c_sentry (rq_ctx rqd1)) 1 0 of
                        (True, pblk2, ppas) \<Rightarrow> None
                      | (False, pblk2, ppas) \<Rightarrow>
                          Some (False, pblk2, rqd1\<lparr>rq_ppa_addr := hd ppas\<rparr>)))
             else if nr_secs > 0 \<and> min_write_pgs pblk \<le> 0 then None
             else
               (case setup_pad_pages flt rb (nat (min_write_pgs pblk))
                       (page_starts nr_secs (nat (min_write_pgs pblk))) (pblk1, rqd1) of
                  None \<Rightarrow> None
                | Some (pblk2, rqd2) \<Rightarrow> Some (False, pblk2, rqd2)))"

definition pblk_end_w_pad :: "pblk \<Rightarrow> nvm_rq \<Rightarrow> pblk" where
  "pblk_end_w_pad pblk rqd =
     (let p1 = (if c_nr_padded (rq_ctx rqd) > 1 then emit Dma_free pblk else pblk);
          p2 = (case rq_bio rqd of None \<Rightarrow> p1 | Some i \<Rightarrow> emit (Bio_put i) p1)
      in emit Free_rqd p2)"

text \<open>
  The \<^verbatim>\<open>do ... while\<close> loop of \<^verbatim>\<open>pblk_pad_blk\<close>.  The pad write is synchronous: the
  function waits for its completion, which the trace records as the submission.  The bio
  of a pad write is named 0.
\<close>

definition pad_rqd :: "int \<Rightarrow> nvm_rq" where
  "pad_rqd nr_secs =
     zero_rqd\<lparr>rq_bio := Some 0,
       rq_ctx := zero_ctx\<lparr>ctx_flags := {PBLK_IOTYPE_SYNC}, c_sentry := 0, c_nr_valid := 0,
                           c_nr_padded := nat nr_secs\<rparr>\<rparr>"

definition pad_submit :: "pblk \<Rightarrow> nat \<Rightarrow> nvm_rq \<Rightarrow> pblk" where
  \<comment> \<open>\<^verbatim>\<open>nvm_submit_io\<close>, the wait for the completion and \<^verbatim>\<open>pblk_end_w_pad\<close>\<close>
  "pad_submit pblk rb rqd =
     pblk_end_w_pad
       (emit (Pad_submit rb (c_nr_valid (rq_ctx rqd)) (c_nr_padded (rq_ctx rqd))) pblk) rqd"

partial_function (option) pblk_pad_blk_loop :: "faults \<Rightarrow> pblk \<Rightarrow> nat \<Rightarrow> int \<Rightarrow> pblk option" where
  "pblk_pad_blk_loop flt pblk rb nr_free_secs =
     (if rqd_alloc_fails flt then Some (emit Pr_err pblk)
      else if bio_map_fails flt then Some (emit Free_rqd (emit Pr_err (emit Alloc_rqd pblk)))
      else
        (case pblk_setup_pad_rq flt (emit Alloc_rqd pblk) rb
                (pad_rqd (if nr_free_secs > max_write_pgs pblk then max_write_pgs pblk
                          else nr_free_secs)) of
           None \<Rightarrow> None
         | Some r \<Rightarrow>
             if fst r \<or> submit_io_fails flt
             then Some (emit Free_rqd (emit (Bio_put 0) (emit Pr_err (fst (snd r)))))
             else if nr_free_secs
                       - (if nr_free_secs > max_write_pgs pblk then max_write_pgs pblk
                          else nr_free_secs) > 0
             then pblk_pad_blk_loop flt (pad_submit (fst (snd r)) rb (snd (snd r))) rb
                    (nr_free_secs
                       - (if nr_free_secs > max_write_pgs pblk then max_write_pgs pblk
                          else nr_free_secs))
             else Some (pad_submit (fst (snd r)) rb (snd (snd r)))))"

declare pblk_pad_blk_loop.simps [code]

definition pblk_pad_blk :: "faults \<Rightarrow> pblk \<Rightarrow> nat \<Rightarrow> int \<Rightarrow> pblk option" where
  "pblk_pad_blk flt pblk rb nr_free_secs =
     (if pad_alloc_fails flt then Some pblk
      else pblk_pad_blk_loop flt pblk rb nr_free_secs)"

text \<open>
  The body of the loop of \<^verbatim>\<open>pblk_pad_open_blks\<close> over the open blocks of a LUN.  The state
  is the instance and the blocks that stay on the list; \<^verbatim>\<open>pblk_put_blk_unlocked\<close> takes a
  block off the list.  A zero \<^verbatim>\<open>min_write_pgs\<close> is a division trap.
\<close>

fun pad_open_list :: "faults \<Rightarrow> nat list \<Rightarrow> pblk \<times> nat list \<Rightarrow> (pblk \<times> nat list) option" where
  "pad_open_list flt [] st = Some st"
| "pad_open_list flt (rb # rbs) (pblk, kept) =
     (let nr_free_secs = pblk_nr_free_secs pblk rb in
      if min_write_pgs pblk = 0 then None
      else if nr_free_secs mod min_write_pgs pblk \<noteq> 0
      then pad_open_list flt rbs (emit Pr_err pblk, kept @ [rb])
      else if nr_free_secs = nr_blk_dsecs pblk
      then pad_open_list flt rbs (emit (Put_blk rb) pblk, kept)
      else (case pblk_pad_blk flt pblk rb nr_free_secs of
              None \<Rightarrow> None
            | Some pblk1 \<Rightarrow> pad_open_list flt rbs (pblk1, kept @ [rb])))"

fun pad_luns :: "faults \<Rightarrow> nat list \<Rightarrow> pblk \<Rightarrow> pblk option" where
  "pad_luns flt [] pblk = Some pblk"
| "pad_luns flt (i # is) pblk =
     (case pad_open_list flt (open_lists pblk ! i)
             (pblk\<lparr>open_lists := (open_lists pblk)[i := []]\<rparr>, []) of
        None \<Rightarrow> None
      | Some (pblk1, kept) \<Rightarrow>
          pad_luns flt is
            (pblk1\<lparr>open_lists := (open_lists pblk1)[i := kept @ open_lists pblk1 ! i]\<rparr>))"

text \<open>The wait at the end: until the open list of every LUN is empty.\<close>

partial_function (option) wait_open_lists_empty :: "pblk \<Rightarrow> pblk option" where
  "wait_open_lists_empty pblk =
     (if list_all (\<lambda>l. l = []) (open_lists pblk) then Some pblk
      else wait_open_lists_empty (let_others_run pblk))"

declare wait_open_lists_empty.simps [code]

definition pblk_pad_open_blks :: "faults \<Rightarrow> pblk \<Rightarrow> pblk option" where
  "pblk_pad_open_blks flt pblk =
     (case pad_luns flt [0 ..< length (open_lists pblk)] pblk of
        None \<Rightarrow> None
      | Some pblk1 \<Rightarrow> wait_open_lists_empty pblk1)"

subsection \<open>Notions used in the properties\<close>

text \<open>The L2P entry of an LBA that is not mapped.\<close>

definition empty_entry :: pblk_addr where
  "empty_entry = \<lparr>addr_ppa = Ppa_empty, addr_rblk = None\<rparr>"

text \<open>
  A driver instance on which the retry loop of \<^verbatim>\<open>pblk_buffer_write\<close> can make no progress:
  no emergency, no room for \<open>n\<close> sectors in the ring, and no other thread that acts.
\<close>

definition stuck :: "pblk \<Rightarrow> nat \<Rightarrow> bool" where
  "stuck pblk n = (\<not> pblk_emergency_gc_mode pblk \<and> pblk_rb_may_write (rwb pblk) n n = None
     \<and> others pblk = [])"

text \<open>
  The retirements recorded in a trace, in order, each with its \<^verbatim>\<open>sentry\<close> and its number of
  entries; and what it means for retirements to follow the ring from a position: each
  one starts where \<open>sync\<close> stands, and moves it on by its number of entries.
\<close>

definition retired_of :: "event list \<Rightarrow> (nat \<times> nat) list" where
  "retired_of es = concat (map (\<lambda>e. case e of Retired s n \<Rightarrow> [(s, n)] | _ \<Rightarrow> []) es)"

fun follows :: "nat \<Rightarrow> (nat \<times> nat) list \<Rightarrow> nat option" where
  "follows pos [] = Some pos"
| "follows pos ((s, n) # r) = (if s = pos then follows (pos + n) r else None)"




text \<open>
  The pad writes recorded in a trace, each with its block, its \<^verbatim>\<open>nr_valid\<close> and its
  \<^verbatim>\<open>nr_padded\<close>; and the batches in which \<open>n\<close> sectors are padded when a batch holds at
  most \<open>m\<close>: full batches, and then the rest.
\<close>

definition pad_submits_of :: "event list \<Rightarrow> (nat \<times> nat \<times> nat) list" where
  "pad_submits_of es =
     concat (map (\<lambda>e. case e of Pad_submit b v k \<Rightarrow> [(b, v, k)] | _ \<Rightarrow> []) es)"

definition batches :: "int \<Rightarrow> int \<Rightarrow> nat list" where
  "batches n m = replicate (nat (n div m)) (nat m) @ (if n mod m = 0 then [] else [nat (n mod m)])"

text \<open>What padding a page leaves unchanged, and what it does to \<open>cur_sec\<close>.\<close>

definition pad_frame :: "pblk \<Rightarrow> pblk \<Rightarrow> bool" where
  "pad_frame p p' =
     (max_write_pgs p' = max_write_pgs p \<and> min_write_pgs p' = min_write_pgs p \<and>
      nr_blk_dsecs p' = nr_blk_dsecs p \<and> open_lists p' = open_lists p \<and>
      pad_submits_of (trace p') = pad_submits_of (trace p))"

subsection \<open>A small driver instance\<close>

text \<open>
  An instance with a ring of eight slots, a map of a hundred LBAs, nothing written and
  nothing in flight, and bios of whole sectors.  The theorems below are exercised on it.
\<close>

definition ex_blk :: pblk_block where
  "ex_blk = \<lparr>b_ch = 0, b_lun = 0, cur_sec = 0, nr_invalid_secs = 0, sector_bitmap = {}, sync_bitmap = {},
     invalid_bitmap = {}, nr_lbas = 0, nr_padded = 0, lba_list = (\<lambda>_. 0)\<rparr>"

definition ex_w_ctx :: pblk_w_ctx where
  "ex_w_ctx = \<lparr>w_bio = None, w_lba = 0, w_flags = {}, w_priv = None, w_paddr = 0,
     w_ppa = Ppa_empty, w_rblk = 0\<rparr>"

definition ex_rb :: pblk_rb where
  "ex_rb = \<lparr>rb_entries = (\<lambda>_. \<lparr>e_data = 0, e_w_ctx = ex_w_ctx\<rparr>), rb_nr_entries = 8,
     rb_mem = 0, rb_subm = 0, rb_sync = 0, rb_sync_point = None\<rparr>"

definition ex_pblk :: pblk where
  "ex_pblk = \<lparr>max_write_pgs = 16, min_write_pgs = 4, nr_blk_dsecs = 64, pblk_nr_secs = 100,
     trans_map = (\<lambda>_. \<lparr>addr_ppa = Ppa_empty, addr_rblk = None\<rparr>),
     blks = (\<lambda>_. ex_blk), rwb = ex_rb, write_inflight = 0, compl_list = [],
     emergency_gc = False, open_lists = [], trace = [], others = []\<rparr>"

text \<open>A bio of the sectors with the given contents, starting at an LBA.\<close>

definition ex_bio :: "nat \<Rightarrow> nat \<Rightarrow> nat list \<Rightarrow> bio" where
  "ex_bio i laddr pages =
     \<lparr>bio_id = i, bi_preflush = False, bi_sector = laddr * 8,
      bi_size = length pages * 4096, bi_vcnt = length pages, bi_idx = 0, bi_pages = pages\<rparr>"

text \<open>
  The instance with its ring full (eight entries admitted, none retired), where the other
  threads will retire four entries at their next step.
\<close>

definition ex_full :: pblk where
  "ex_full = ex_pblk\<lparr>rwb := ex_rb\<lparr>rb_mem := 8, rb_subm := 8\<rparr>, write_inflight := 8,
     others := [Other_retire 4]\<rparr>"

text \<open>
  A write request with a given \<^verbatim>\<open>sentry\<close> and number of valid entries, and the instance
  with six entries submitted, of which the requests of the entries 2, 3 and 4, 5 have
  completed before the request of the entries 0, 1.
\<close>

definition ex_rq :: "nat \<Rightarrow> nat \<Rightarrow> nvm_rq" where
  "ex_rq s n = zero_rqd\<lparr>rq_ctx := zero_ctx\<lparr>c_sentry := s, c_nr_valid := n\<rparr>\<rparr>"


text \<open>
  The instance at teardown with the block 2 open: 24 of its 64 sectors have been given
  out, 40 are free.
\<close>

definition ex_open :: pblk where
  "ex_open = ex_pblk\<lparr>blks := (\<lambda>_. ex_blk)(2 := ex_blk\<lparr>cur_sec := 24, sector_bitmap := {0 ..< 24}\<rparr>),
     open_lists := [[2]]\<rparr>"

text \<open>
  The instance with one entry submitted, and the write request of that entry coming back
  from the device with a write failure on its one sector.
\<close>

definition ex_sub1 :: pblk where
  "ex_sub1 = ex_pblk\<lparr>rwb := ex_rb\<lparr>rb_mem := 1, rb_subm := 1\<rparr>, write_inflight := 1\<rparr>"

definition ex_fail_rq :: nvm_rq where
  "ex_fail_rq = (ex_rq 0 1)\<lparr>rq_failwrite := True, rq_nr_ppas := 1,
     rq_ppa_addr := Ppa_dev 0 0 3 0, rq_ppa_status := {0}\<rparr>"

text \<open>
  The instance with the LBAs 10 and 11 in the cache, where another reader holds the
  read pin of LBA 10; and the instance with LBA 10 in the cache, not pinned, and LBA 11
  not mapped.
\<close>

definition ex_pinned :: pblk where
  "ex_pinned = ex_pblk\<lparr>trans_map := (trans_map ex_pblk)
     (10 := \<lparr>addr_ppa = Ppa_cache 0 True, addr_rblk = None\<rparr>,
      11 := \<lparr>addr_ppa = Ppa_cache 1 False, addr_rblk = None\<rparr>),
     rwb := ex_rb\<lparr>rb_mem := 2\<rparr>\<rparr>"

definition ex_hole :: pblk where
  "ex_hole = ex_pblk\<lparr>trans_map := (trans_map ex_pblk)
     (10 := \<lparr>addr_ppa = Ppa_cache 0 False, addr_rblk = None\<rparr>),
     rwb := ex_rb\<lparr>rb_mem := 1\<rparr>\<rparr>"

text \<open>The read pin of an LBA after a call that returns an instance in second place.\<close>

definition pin_after :: "('a \<times> pblk \<times> 'b) option \<Rightarrow> nat \<Rightarrow> ppa_addr option" where
  "pin_after r l = map_option (\<lambda>(x, p, y). addr_ppa (trans_map p l)) r"

section \<open>Properties\<close>

subsection \<open>The trace is the only field that recording an event changes\<close>

lemma emit_frame [simp]:
  "rwb (emit e p) = rwb p" "compl_list (emit e p) = compl_list p"
  "write_inflight (emit e p) = write_inflight p" "trace (emit e p) = trace p @ [e]"
  "trans_map (emit e p) = trans_map p" "blks (emit e p) = blks p"
  "max_write_pgs (emit e p) = max_write_pgs p" "min_write_pgs (emit e p) = min_write_pgs p"
  "nr_blk_dsecs (emit e p) = nr_blk_dsecs p" "open_lists (emit e p) = open_lists p"
  "pblk_nr_secs (emit e p) = pblk_nr_secs p" "emergency_gc (emit e p) = emergency_gc p"
  "others (emit e p) = others p"
  by (simp_all add: emit_def)

subsection \<open>The batch size of the media writer\<close>

lemma s32_id: "- (2 ^ 31) \<le> i \<Longrightarrow> i < 2 ^ 31 \<Longrightarrow> s32_of_int i = i"
  by (simp add: s32_of_int_def)

lemma u64_id: "0 \<le> i \<Longrightarrow> i < 2 ^ 64 \<Longrightarrow> u64_of_int i = nat i"
  by (simp add: u64_of_int_def)

lemma loop_closed:
  assumes "0 < mn" "0 \<le> s" "s < mx" "mn < mx" "mx \<le> 2 ^ 30" "int avail < mx"
  shows "secs_to_sync_loop mn mx avail s =
           Some (if s + mn \<le> int avail then s + mn * ((int avail - s) div mn) else s)"
  using assms
proof (induction "nat (int avail - s)" arbitrary: s rule: less_induct)
  case less
  have inc: "s32_of_int (s + mn) = s + mn"
    using less.prems by (intro s32_id) auto
  have u: "u64_of_int (s + mn) = nat (s + mn)"
    using less.prems by (intro u64_id) auto
  show ?case
  proof (cases "s + mn \<le> int avail")
    case True
    have step: "secs_to_sync_loop mn mx avail s = secs_to_sync_loop mn mx avail (s + mn)"
    proof -
      have "nat (s + mn) \<le> avail" using True by linarith
      moreover have "s + mn \<le> mx" using True less.prems by linarith
      ultimately show ?thesis
        by (subst secs_to_sync_loop.simps) (simp add: inc u Let_def)
    qed
    have IH: "secs_to_sync_loop mn mx avail (s + mn) =
           Some (if (s + mn) + mn \<le> int avail then (s + mn) + mn * ((int avail - (s + mn)) div mn) else s + mn)"
      using True less.prems by (intro less.hyps) auto
    have d: "(int avail - s) div mn = (int avail - (s + mn)) div mn + 1"
    proof -
      have "((int avail - (s + mn)) + mn) div mn = (int avail - (s + mn)) div mn + 1"
        using less.prems(1) by (subst div_add_self2) auto
      moreover have "(int avail - (s + mn)) + mn = int avail - s" by simp
      ultimately show ?thesis by simp
    qed
    have z: "\<not> (s + mn) + mn \<le> int avail \<Longrightarrow> (int avail - (s + mn)) div mn = 0"
      using True less.prems(1) by (intro div_pos_pos_trivial) auto
    show ?thesis
      using True z by (simp add: step IH d distrib_left)
  next
    case False
    then have "\<not> nat (s + mn) \<le> avail" by linarith
    with False show ?thesis
      by (subst secs_to_sync_loop.simps) (simp add: inc u Let_def)
  qed
qed

lemma largest_multiple_below:
  fixes a mn :: int
  assumes "0 < mn"
  shows "mn * (a div mn) \<le> a" and "a < mn * (a div mn) + mn"
    and "mn * k \<le> a \<Longrightarrow> mn * k \<le> mn * (a div mn)"
proof -
  have m: "a = mn * (a div mn) + a mod mn" by simp
  have r: "0 \<le> a mod mn" "a mod mn < mn" using assms by simp_all
  show "mn * (a div mn) \<le> a" using m r by linarith
  show "a < mn * (a div mn) + mn" using m r by linarith
  assume le: "mn * k \<le> a"
  have "(mn * k) div mn \<le> a div mn"
    using le assms by (intro zdiv_mono1) simp_all
  moreover have "(mn * k) div mn = k" using assms by simp
  ultimately have "k \<le> a div mn" by simp
  then show "mn * k \<le> mn * (a div mn)" using assms by simp
qed

lemma round_down_ok:
  assumes "0 < mn" "int secs < 2 ^ 30" "mn < 2 ^ 31"
  shows "round_down_to_min mn secs = Some (mn * (int secs div mn))"
proof -
  have u: "u64_of_int mn = nat mn" using assms by (intro u64_id) auto
  have le: "mn * (int secs div mn) \<le> int secs"
    using assms(1) by (rule largest_multiple_below(1))
  have nn: "0 \<le> mn * (int secs div mn)"
    using assms(1) by (simp add: pos_imp_zdiv_nonneg_iff)
  have c: "int (nat mn * (secs div nat mn)) = mn * (int secs div mn)"
    using assms(1) by (simp add: zdiv_int)
  have small: "nat mn * (secs div nat mn) < 2 ^ 64"
  proof -
    have "nat mn * (secs div nat mn) \<le> secs" by simp
    moreover have "secs < 2 ^ 30" using assms(2) by simp
    moreover have "(2::nat) ^ 30 < 2 ^ 64" by simp
    ultimately show ?thesis by linarith
  qed
  have m: "nat mn * (secs div nat mn) mod 2 ^ 64 = nat mn * (secs div nat mn)"
    using small by simp
  have s: "s32_of_int (mn * (int secs div mn)) = mn * (int secs div mn)"
    using le nn assms(2) by (intro s32_id) auto
  have nz: "nat mn \<noteq> 0" using assms(1) by simp
  show ?thesis
    unfolding round_down_to_min_def u m c s using nz by simp
qed


lemma calc_secs_max_form:
  assumes mn: "0 < min_write_pgs pblk" "min_write_pgs pblk < 2 ^ 31"
      and mx: "0 \<le> max_write_pgs pblk" "max_write_pgs pblk \<le> 2 ^ 30"
  shows "pblk_calc_secs_to_sync pblk secs_avail secs_to_flush =
     Some (let mx = max_write_pgs pblk; mn = min_write_pgs pblk in
       if mx \<le> int secs_avail \<or> mx \<le> int secs_to_flush then mx
       else if mn \<le> int secs_avail then
         (if 0 < secs_to_flush
          then max (mn * (int secs_to_flush div mn)) (mn * (int secs_avail div mn))
          else mn * (int secs_avail div mn))
       else if 0 < secs_to_flush then mn else 0)"
proof -
  define mxv where "mxv = max_write_pgs pblk"
  define mnv where "mnv = min_write_pgs pblk"
  have p30: "(2::int) ^ 30 < 2 ^ 64" "(2::int) ^ 31 < 2 ^ 64" by simp_all
  have umx: "u64_of_int mxv = nat mxv"
    using mx p30 unfolding mxv_def by (intro u64_id) linarith+
  have umn: "u64_of_int mnv = nat mnv"
    using mn p30 unfolding mnv_def by (intro u64_id) linarith+
  have pos: "0 < mnv" "0 \<le> mxv" "mxv \<le> 2 ^ 30" "mnv < 2 ^ 31"
    using mn mx by (simp_all add: mxv_def mnv_def)
  show ?thesis
  proof (cases "mxv \<le> int secs_avail \<or> mxv \<le> int secs_to_flush")
    case True
    then have "nat mxv \<le> secs_avail \<or> nat mxv \<le> secs_to_flush" by linarith
    with True show ?thesis
      by (simp add: pblk_calc_secs_to_sync_def Let_def umx umn
          flip: mxv_def mnv_def)
  next
    case False
    then have lt: "int secs_avail < mxv" "int secs_to_flush < mxv" by auto
    then have nlt: "\<not> nat mxv \<le> secs_avail" "\<not> nat mxv \<le> secs_to_flush" by linarith+
    show ?thesis
    proof (cases "mnv \<le> int secs_avail")
      case small: False
      then have "\<not> nat mnv \<le> secs_avail" by linarith
      with False small nlt show ?thesis
        by (simp add: pblk_calc_secs_to_sync_def Let_def umx umn
            flip: mxv_def mnv_def)
    next
      case big: True
      then have nbig: "nat mnv \<le> secs_avail" by linarith
      have ra: "round_down_to_min mnv secs_avail = Some (mnv * (int secs_avail div mnv))"
        using pos lt by (intro round_down_ok) linarith+
      have rf: "round_down_to_min mnv secs_to_flush = Some (mnv * (int secs_to_flush div mnv))"
        using pos lt by (intro round_down_ok) linarith+
      show ?thesis
      proof (cases "secs_to_flush = 0")
        case True
        with False big nbig nlt ra show ?thesis
          by (simp add: pblk_calc_secs_to_sync_def Let_def umx umn
              flip: mxv_def mnv_def)
      next
        case flush: False
        define s where "s = mnv * (int secs_to_flush div mnv)"
        have s0: "0 \<le> s" using pos(1) by (simp add: s_def pos_imp_zdiv_nonneg_iff)
        have sle: "s \<le> int secs_to_flush"
          using pos(1) unfolding s_def by (rule largest_multiple_below(1))
        have loop: "secs_to_sync_loop mnv mxv secs_avail s =
            Some (if s + mnv \<le> int secs_avail
                  then s + mnv * ((int secs_avail - s) div mnv) else s)"
          using pos lt big s0 sle by (intro loop_closed) linarith+
        have dv: "(int secs_avail - s) div mnv = int secs_avail div mnv - int secs_to_flush div mnv"
        proof -
          have "(int secs_avail + (- (int secs_to_flush div mnv)) * mnv) div mnv =
                (- (int secs_to_flush div mnv)) + int secs_avail div mnv"
            using pos(1) by (intro div_mult_self1) simp
          moreover have "int secs_avail + (- (int secs_to_flush div mnv)) * mnv = int secs_avail - s"
            by (simp add: s_def)
          ultimately show ?thesis by simp
        qed
        have val: "(if s + mnv \<le> int secs_avail
                  then s + mnv * ((int secs_avail - s) div mnv) else s)
             = max s (mnv * (int secs_avail div mnv))"
        proof (cases "s + mnv \<le> int secs_avail")
          case True
          have "s + mnv * ((int secs_avail - s) div mnv) =
                s + mnv * (int secs_avail div mnv - int secs_to_flush div mnv)"
            by (simp only: dv)
          also have "\<dots> = mnv * (int secs_avail div mnv)"
            by (simp add: s_def right_diff_distrib)
          finally have "s + mnv * ((int secs_avail - s) div mnv) = mnv * (int secs_avail div mnv)" .
          moreover have "s \<le> mnv * (int secs_avail div mnv)"
          proof -
            have "int secs_to_flush < s + mnv"
              using pos(1) unfolding s_def by (rule largest_multiple_below(2))
            then have "int secs_to_flush div mnv \<le> int secs_avail div mnv"
              using True pos(1) by (intro zdiv_mono1) linarith+
            then show ?thesis using pos(1) by (simp add: s_def)
          qed
          ultimately show ?thesis using True by simp
        next
          case nf: False
          have "mnv * (int secs_avail div mnv) \<le> s"
          proof (rule ccontr)
            assume "\<not> mnv * (int secs_avail div mnv) \<le> s"
            then have "mnv * (int secs_to_flush div mnv) < mnv * (int secs_avail div mnv)"
              by (simp add: s_def)
            then have "int secs_to_flush div mnv < int secs_avail div mnv"
              using pos(1) by simp
            then have "int secs_to_flush div mnv + 1 \<le> int secs_avail div mnv" by simp
            then have "mnv * (int secs_to_flush div mnv + 1) \<le> mnv * (int secs_avail div mnv)"
              using pos(1) by simp
            moreover have "mnv * (int secs_avail div mnv) \<le> int secs_avail"
              using pos(1) by (rule largest_multiple_below(1))
            ultimately have "s + mnv \<le> int secs_avail"
              by (simp add: s_def distrib_left)
            with nf show False by simp
          qed
          with nf show ?thesis by simp
        qed
        from False big nbig nlt flush rf show ?thesis
          by (simp add: pblk_calc_secs_to_sync_def Let_def umx umn loop [unfolded s_def]
              val [unfolded s_def] flip: mxv_def mnv_def)
      qed
    qed
  qed
qed

text \<open>
  Claim C4, as the code has it.  For a geometry with \<open>0 < min\<close> and \<open>max\<close> in range,
  \<^verbatim>\<open>pblk_calc_secs_to_sync\<close> returns \<open>max\<close> if \<open>secs_avail \<ge> max\<close> or
  \<open>secs_to_flush \<ge> max\<close>; otherwise, if \<open>secs_avail \<ge> min\<close>, the largest multiple of
  \<open>min\<close> that is \<open>\<le> secs_avail\<close>, except that a flush request that rounds down to a
  larger multiple of \<open>min\<close> than \<open>secs_avail\<close> does is returned itself (rounded down),
  and is then larger than \<open>secs_avail\<close>; otherwise \<open>min\<close> if \<open>secs_to_flush > 0\<close>;
  otherwise 0.  (\<open>largest_multiple_below\<close> says that \<open>min * (a div min)\<close> is the
  largest multiple of \<open>min\<close> that is \<open>\<le> a\<close>.)
\<close>

theorem pblk_calc_secs_to_sync_value:
  assumes mn: "0 < min_write_pgs pblk" "min_write_pgs pblk < 2 ^ 31"
      and mx: "0 \<le> max_write_pgs pblk" "max_write_pgs pblk \<le> 2 ^ 30"
  shows "pblk_calc_secs_to_sync pblk secs_avail secs_to_flush =
     Some (let mx = max_write_pgs pblk; mn = min_write_pgs pblk in
       if mx \<le> int secs_avail \<or> mx \<le> int secs_to_flush then mx
       else if mn \<le> int secs_avail then
         (if int secs_avail div mn < int secs_to_flush div mn
          then mn * (int secs_to_flush div mn)
          else mn * (int secs_avail div mn))
       else if 0 < secs_to_flush then mn else 0)"
proof -
  have m: "max (min_write_pgs pblk * (int secs_to_flush div min_write_pgs pblk))
               (min_write_pgs pblk * (int secs_avail div min_write_pgs pblk)) =
           (if int secs_avail div min_write_pgs pblk < int secs_to_flush div min_write_pgs pblk
            then min_write_pgs pblk * (int secs_to_flush div min_write_pgs pblk)
            else min_write_pgs pblk * (int secs_avail div min_write_pgs pblk))"
    using mn(1) by (simp add: max_def)
  have nn: "\<not> int secs_avail div min_write_pgs pblk < 0"
    using mn(1) by (simp add: pos_imp_zdiv_nonneg_iff not_less)
  show ?thesis
  proof (cases "0 < secs_to_flush")
    case True
    then show ?thesis
      by (simp add: calc_secs_max_form [OF assms] Let_def m)
  next
    case False
    then have "secs_to_flush = 0" by simp
    then show ?thesis
      using nn by (simp add: calc_secs_max_form [OF assms] Let_def)
  qed
qed

text \<open>The theorem at \<open>max = 16\<close>, \<open>min = 4\<close>, nine sectors available, five to flush.\<close>

theorem pblk_calc_secs_to_sync_value_witness:
  "pblk_calc_secs_to_sync \<lparr>max_write_pgs = 16, min_write_pgs = 4\<rparr> 9 5 = Some 8"
  using pblk_calc_secs_to_sync_value [of "\<lparr>max_write_pgs = 16, min_write_pgs = 4\<rparr>" 9 5]
  by simp

text \<open>
  Claim C4 as stated fails: with \<open>max = 16\<close>, \<open>min = 4\<close>, five sectors available and nine
  to flush the function returns 8, which is not \<open>\<le> secs_avail\<close>.
\<close>

theorem pblk_calc_secs_to_sync_exceeds_avail:
  "pblk_calc_secs_to_sync \<lparr>max_write_pgs = 16, min_write_pgs = 4\<rparr> 5 9 = Some 8
   \<and> \<not> (8::int) \<le> int 5"
  by (simp add: pblk_calc_secs_to_sync_def round_down_to_min_def u64_of_int_def s32_of_int_def
      secs_to_sync_loop.simps Let_def)

subsection \<open>The bound on the sectors in flight\<close>












subsection \<open>A read whose sector count and segment count differ\<close>

text \<open>
  Claim C10.  When the sector count \<^verbatim>\<open>pblk_get_secs(bio)\<close> of a read bio differs from its
  segment count \<^verbatim>\<open>bi_vcnt\<close>, \<^verbatim>\<open>pblk_submit_read\<close> returns \<^verbatim>\<open>NVM_IO_ERR\<close> at once, whatever
  the state of the driver and whichever allocations would fail: the driver instance is
  the one it was (no request allocated, the L2P map as before, nothing added to the
  trace, so the bio is neither completed nor errored) and the bio is untouched.
\<close>

theorem pblk_submit_read_size_mismatch:
  "pblk_get_secs b \<noteq> bi_vcnt b \<Longrightarrow>
     pblk_submit_read flt pblk b flags = Some (NVM_IO_ERR, pblk, b)"
  by (simp add: pblk_submit_read_def)

text \<open>The theorem for a bio of two sectors in one segment, on the small instance.\<close>

theorem pblk_submit_read_size_mismatch_witness:
  "pblk_submit_read no_faults ex_pblk
     \<lparr>bio_id = 1, bi_preflush = False, bi_sector = 80, bi_size = 8192, bi_vcnt = 1,
      bi_idx = 0, bi_pages = [0]\<rparr> {} =
   Some (NVM_IO_ERR, ex_pblk,
     \<lparr>bio_id = 1, bi_preflush = False, bi_sector = 80, bi_size = 8192, bi_vcnt = 1,
      bi_idx = 0, bi_pages = [0]\<rparr>)"
  using pblk_submit_read_size_mismatch [of
      "\<lparr>bio_id = 1, bi_preflush = False, bi_sector = 80, bi_size = 8192, bi_vcnt = 1,
        bi_idx = 0, bi_pages = [0]\<rparr>" no_faults ex_pblk "{}"]
  by (simp add: pblk_get_secs_def PBLK_EXPOSED_PAGE_SIZE_def)

subsection \<open>Discard\<close>

lemma trans_map_page_invalidate [simp]:
  "trans_map (pblk_page_invalidate pblk gp) = trans_map pblk"
  by (simp add: pblk_page_invalidate_def split: option.splits)

lemma trans_map_invalidate_one:
  "trans_map (pblk_invalidate_one pblk i) = (trans_map pblk)(i := empty_entry)"
  by (simp add: pblk_invalidate_one_def Let_def empty_entry_def)

lemma pblk_nr_secs_invalidate_one [simp]:
  "pblk_nr_secs (pblk_invalidate_one pblk i) = pblk_nr_secs pblk"
  by (simp add: pblk_invalidate_one_def Let_def pblk_page_invalidate_def split: option.splits)

lemma trans_map_invalidate_fold:
  "trans_map (foldl pblk_invalidate_one pblk xs) j =
     (if j \<in> set xs then empty_entry else trans_map pblk j)"
  by (induction xs arbitrary: pblk) (auto simp: trans_map_invalidate_one)

lemma pblk_nr_secs_invalidate_fold [simp]:
  "pblk_nr_secs (foldl pblk_invalidate_one pblk xs) = pblk_nr_secs pblk"
  by (induction xs arbitrary: pblk) auto

lemma invalidate_one_empty:
  assumes "trans_map pblk i = empty_entry"
  shows "pblk_invalidate_one pblk i = pblk"
proof -
  have "(trans_map pblk)(i := empty_entry) = trans_map pblk"
    using assms by (rule fun_upd_idem)
  then have "pblk\<lparr>trans_map := (trans_map pblk)(i := empty_entry)\<rparr> = pblk" by simp
  moreover have "addr_rblk (trans_map pblk i) = None" using assms by (simp add: empty_entry_def)
  ultimately show ?thesis
    by (simp add: pblk_invalidate_one_def Let_def empty_entry_def)
qed

lemma invalidate_fold_empty:
  "\<forall>i \<in> set xs. trans_map pblk i = empty_entry \<Longrightarrow> foldl pblk_invalidate_one pblk xs = pblk"
  by (induction xs) (auto simp: invalidate_one_empty)

lemma pblk_invalidate_range_idem:
  assumes "pblk_invalidate_range pblk slba n = Some pblk1"
  shows "pblk_invalidate_range pblk1 slba n = Some pblk1"
proof -
  from assms have r: "slba + n \<le> pblk_nr_secs pblk"
    and p1: "pblk1 = foldl pblk_invalidate_one pblk [slba ..< slba + n]"
    by (auto simp: pblk_invalidate_range_def split: if_splits)
  have "\<forall>i \<in> set [slba ..< slba + n]. trans_map pblk1 i = empty_entry"
    by (simp add: p1 trans_map_invalidate_fold)
  then have "foldl pblk_invalidate_one pblk1 [slba ..< slba + n] = pblk1"
    by (rule invalidate_fold_empty)
  moreover have "slba + n \<le> pblk_nr_secs pblk1" using r by (simp add: p1)
  ultimately show ?thesis by (simp add: pblk_invalidate_range_def)
qed

lemma pblk_read_rq_empty_entry:
  assumes "trans_map pblk l = empty_entry" "l < pblk_nr_secs pblk"
  shows "\<exists>ret. pblk_read_rq pblk rb rqd l bm flags = Some (ret, pblk, rb, rqd, insert 0 bm)"
  using assms by (simp add: pblk_read_rq_def empty_entry_def Let_def)

text \<open>
  A discard that is done once more leaves the driver instance, and so the L2P map and the
  invalidation counters and bitmaps of all blocks, as the first one left it.  After a
  discard, the read of one sector (\<^verbatim>\<open>pblk_read_rq\<close>) at any LBA of the range finds the sector
  empty: it marks the sector in the read bitmap, copies nothing into the bio, asks the
  device for nothing, and changes nothing in the driver.
\<close>

lemma pblk_discard_idempotent:
  assumes "pblk_discard pblk b = Some pblk1"
  shows "pblk_discard pblk1 b = Some pblk1 \<and>
         (\<forall>l. bi_sector b div NR_PHY_IN_LOG \<le> l \<and>
               l < bi_sector b div NR_PHY_IN_LOG + bi_size b div PBLK_EXPOSED_PAGE_SIZE \<longrightarrow>
            (\<exists>ret. pblk_read_rq pblk1 rb rqd l bm flags =
                      Some (ret, pblk1, rb, rqd, insert 0 bm)))"
proof (intro conjI allI impI)
  show "pblk_discard pblk1 b = Some pblk1"
    using assms unfolding pblk_discard_def by (rule pblk_invalidate_range_idem)
next
  fix l
  define slba where "slba = bi_sector b div NR_PHY_IN_LOG"
  define n where "n = bi_size b div PBLK_EXPOSED_PAGE_SIZE"
  assume "bi_sector b div NR_PHY_IN_LOG \<le> l \<and>
          l < bi_sector b div NR_PHY_IN_LOG + bi_size b div PBLK_EXPOSED_PAGE_SIZE"
  then have l: "slba \<le> l" "l < slba + n" by (simp_all add: slba_def n_def)
  from assms have r: "slba + n \<le> pblk_nr_secs pblk"
    and p1: "pblk1 = foldl pblk_invalidate_one pblk [slba ..< slba + n]"
    by (auto simp: pblk_discard_def pblk_invalidate_range_def slba_def n_def split: if_splits)
  have "trans_map pblk1 l = empty_entry"
    using l by (simp add: p1 trans_map_invalidate_fold)
  moreover have "l < pblk_nr_secs pblk1" using l r by (simp add: p1)
  ultimately show "\<exists>ret. pblk_read_rq pblk1 rb rqd l bm flags =
                      Some (ret, pblk1, rb, rqd, insert 0 bm)"
    by (rule pblk_read_rq_empty_entry)
qed

text \<open>
  The same on the small instance, with LBA 10 on the device (block 3, sector 5) and
  LBA 11 in the cache: the discard of the two LBAs and the read of LBA 11 after it.
\<close>

lemma pblk_discard_idempotent_example:
  "\<exists>p ret. pblk_discard
      (ex_pblk\<lparr>trans_map := (trans_map ex_pblk)
         (10 := \<lparr>addr_ppa = Ppa_dev 0 0 3 5, addr_rblk = Some 3\<rparr>,
          11 := \<lparr>addr_ppa = Ppa_cache 2 False, addr_rblk = None\<rparr>)\<rparr>)
      (ex_bio 5 10 [0, 0]) = Some p \<and>
    nr_invalid_secs (blks p 3) = 1 \<and>
    pblk_discard p (ex_bio 5 10 [0, 0]) = Some p \<and>
    pblk_read_rq p (ex_bio 6 11 [7]) zero_rqd 11 {} {} =
      Some (ret, p, ex_bio 6 11 [7], zero_rqd, {0})"
proof -
  define p0 where "p0 = ex_pblk\<lparr>trans_map := (trans_map ex_pblk)
         (10 := \<lparr>addr_ppa = Ppa_dev 0 0 3 5, addr_rblk = Some 3\<rparr>,
          11 := \<lparr>addr_ppa = Ppa_cache 2 False, addr_rblk = None\<rparr>)\<rparr>"
  define p where "p = foldl pblk_invalidate_one p0 [10 ..< 12]"
  have u: "[10 ..< 12] = [10, 11::nat]" by (simp add: upt_rec)
  have sz: "bi_sector (ex_bio 5 10 [0, 0]) div NR_PHY_IN_LOG = 10"
     "bi_size (ex_bio 5 10 [0, 0]) div PBLK_EXPOSED_PAGE_SIZE = 2"
    by (simp_all add: ex_bio_def NR_PHY_IN_LOG_def PBLK_EXPOSED_PAGE_SIZE_def)
  have d: "pblk_discard p0 (ex_bio 5 10 [0, 0]) = Some p"
    unfolding pblk_discard_def sz
    by (simp add: pblk_invalidate_range_def p_def p0_def ex_pblk_def)
  have n: "nr_invalid_secs (blks p 3) = 1"
    by (simp add: p_def u p0_def ex_pblk_def ex_blk_def pblk_invalidate_one_def
        pblk_page_invalidate_def Let_def)
  from pblk_discard_idempotent [OF d, of "ex_bio 6 11 [7]" zero_rqd "{}" "{}"]
  have i: "pblk_discard p (ex_bio 5 10 [0, 0]) = Some p"
    and r: "\<exists>ret. pblk_read_rq p (ex_bio 6 11 [7]) zero_rqd 11 {} {} =
             Some (ret, p, ex_bio 6 11 [7], zero_rqd, {0})"
    by (simp_all add: sz)
  from d n i r show ?thesis unfolding p0_def by blast
qed

subsection \<open>Admission when the ring is full\<close>

lemma pblk_write_to_cache_requeue:
  "pblk_rb_may_write (rwb pblk) n n = None \<Longrightarrow>
     pblk_write_to_cache pblk b flags n = Some (NVM_IO_REQUEUE, pblk, b)"
  by (simp add: pblk_write_to_cache_def Let_def)

lemma pblk_write_to_cache_ret:
  "pblk_write_to_cache pblk b flags n = Some (ret, pblk1, b1) \<Longrightarrow>
     ret = NVM_IO_REQUEUE \<Longrightarrow> pblk_rb_may_write (rwb pblk) n n = None"
  by (auto simp: pblk_write_to_cache_def Let_def split: option.splits if_splits)

lemma buffer_write_retry_requeue:
  assumes "pblk_buffer_write_retry pblk b flags n = Some y"
  shows "fst y = NVM_IO_REQUEUE \<longrightarrow> pblk_emergency_gc_mode (fst (snd y))"
  using assms
proof (rule pblk_buffer_write_retry.raw_induct [rotated, where
      P = "\<lambda>pblk b flags n y. fst y = NVM_IO_REQUEUE \<longrightarrow> pblk_emergency_gc_mode (fst (snd y))"],
    goal_cases)
  case (1 f pblk b flags n y)
  show ?case
  proof (cases "pblk_emergency_gc_mode pblk")
    case True
    with 1(2) show ?thesis by auto
  next
    case False
    with 1(2) obtain ret pblk1 b1 where
      w: "pblk_write_to_cache pblk b flags n = Some (ret, pblk1, b1)"
      by (auto split: option.splits)
    show ?thesis
    proof (cases "ret = NVM_IO_REQUEUE")
      case True
      with 1(2) False w have "f (let_others_run pblk1) b1 flags n = Some y" by simp
      then show ?thesis by (rule 1(1))
    next
      case nr: False
      with 1(2) False w show ?thesis by (auto split: option.splits)
    qed
  qed
qed

lemma buffer_write_retry_stuck:
  assumes "pblk_buffer_write_retry pblk b flags n = Some y"
  shows "\<not> stuck pblk n"
  using assms
proof (rule pblk_buffer_write_retry.raw_induct [rotated, where
      P = "\<lambda>pblk b flags n y. \<not> stuck pblk n"], goal_cases)
  case (1 f pblk b flags n y)
  show ?case
  proof
    assume s: "stuck pblk n"
    then have w: "pblk_write_to_cache pblk b flags n = Some (NVM_IO_REQUEUE, pblk, b)"
      by (simp add: stuck_def pblk_write_to_cache_requeue)
    from s have o: "let_others_run pblk = pblk" by (simp add: stuck_def let_others_run_def)
    from s 1(2) w o have "f pblk b flags n = Some y" by (simp add: stuck_def)
    then have "\<not> stuck pblk n" by (rule 1(1))
    with s show False by simp
  qed
qed

text \<open>
  Claim C7, as the code has it.  When \<^verbatim>\<open>pblk_rb_may_write\<close> cannot reserve the slots,
  \<^verbatim>\<open>pblk_write_to_cache\<close> returns \<^verbatim>\<open>NVM_IO_REQUEUE\<close> and leaves the driver instance (ring and
  map) and the bio as they were.  \<^verbatim>\<open>pblk_buffer_write\<close> does not pass this on to its
  caller: it tries again.  It returns \<^verbatim>\<open>NVM_IO_REQUEUE\<close> only when it finds the driver in
  emergency GC mode, and while the ring stays full, with no emergency and nobody else
  making progress, it does not return at all.
\<close>

theorem pblk_buffer_write_requeue:
  "(pblk_rb_may_write (rwb pblk) n n = None \<longrightarrow>
      pblk_write_to_cache pblk b flags n = Some (NVM_IO_REQUEUE, pblk, b)) \<and>
   (pblk_buffer_write pblk b flags = Some (NVM_IO_REQUEUE, pblk', b') \<longrightarrow>
      pblk_emergency_gc_mode pblk') \<and>
   (\<not> (bi_preflush b \<and> \<not> bio_has_data b) \<and> stuck pblk (pblk_get_secs b mod 256) \<longrightarrow>
      pblk_buffer_write pblk b flags = None)"
proof (intro conjI impI)
  assume "pblk_rb_may_write (rwb pblk) n n = None"
  then show "pblk_write_to_cache pblk b flags n = Some (NVM_IO_REQUEUE, pblk, b)"
    by (rule pblk_write_to_cache_requeue)
next
  assume r: "pblk_buffer_write pblk b flags = Some (NVM_IO_REQUEUE, pblk', b')"
  show "pblk_emergency_gc_mode pblk'"
  proof (cases "bi_preflush b \<and> \<not> bio_has_data b")
    case True
    with r show ?thesis
      by (auto simp: pblk_buffer_write_def Let_def split: prod.splits if_splits)
  next
    case False
    with r have "pblk_buffer_write_retry pblk b flags (pblk_get_secs b mod 256) =
        Some (NVM_IO_REQUEUE, pblk', b')"
      by (auto simp: pblk_buffer_write_def Let_def)
    from buffer_write_retry_requeue [OF this] show ?thesis by simp
  qed
next
  assume a: "\<not> (bi_preflush b \<and> \<not> bio_has_data b) \<and> stuck pblk (pblk_get_secs b mod 256)"
  then have "pblk_buffer_write_retry pblk b flags (pblk_get_secs b mod 256) = None"
    using buffer_write_retry_stuck [of pblk b flags "pblk_get_secs b mod 256"]
    by (cases "pblk_buffer_write_retry pblk b flags (pblk_get_secs b mod 256)") auto
  with a show "pblk_buffer_write pblk b flags = None"
    by (auto simp: pblk_buffer_write_def Let_def)
qed

lemmas ex_defs = ex_pblk_def ex_rb_def ex_w_ctx_def ex_blk_def ex_bio_def ex_full_def

lemmas write_defs = pblk_buffer_write_def
  pblk_write_to_cache_def pblk_rb_may_write_def pblk_rb_write_entry_def
  pblk_rb_wrap_pos_def pblk_cacheline_to_ppa_def pblk_update_map_def
  pblk_may_submit_write_try_def pblk_get_secs_def pblk_get_laddr_def
  PBLK_EXPOSED_PAGE_SIZE_def NR_PHY_IN_LOG_def bio_has_data_def bio_data_def bio_advance_def
  pblk_emergency_gc_mode_def let_others_run_def s32_of_int_def Let_def

text \<open>
  The theorem on the small instance: with the ring full and nobody to empty it, and in
  emergency GC mode.
\<close>

theorem pblk_buffer_write_requeue_witness:
  "pblk_write_to_cache (ex_full\<lparr>others := []\<rparr>) (ex_bio 5 10 [77]) {} 1 =
     Some (NVM_IO_REQUEUE, ex_full\<lparr>others := []\<rparr>, ex_bio 5 10 [77]) \<and>
   pblk_buffer_write (ex_full\<lparr>others := []\<rparr>) (ex_bio 5 10 [77]) {} = None \<and>
   pblk_buffer_write (ex_full\<lparr>emergency_gc := True\<rparr>) (ex_bio 5 10 [77]) {} =
     Some (NVM_IO_REQUEUE, ex_full\<lparr>emergency_gc := True\<rparr>, ex_bio 5 10 [77]) \<and>
   pblk_emergency_gc_mode (ex_full\<lparr>emergency_gc := True\<rparr>)"
proof -
  have m: "pblk_rb_may_write (rwb (ex_full\<lparr>others := []\<rparr>)) 1 1 = None"
    by (simp add: ex_defs pblk_rb_may_write_def)
  have s: "\<not> (bi_preflush (ex_bio 5 10 [77]) \<and> \<not> bio_has_data (ex_bio 5 10 [77])) \<and>
      stuck (ex_full\<lparr>others := []\<rparr>) (pblk_get_secs (ex_bio 5 10 [77]) mod 256)"
    by (simp add: ex_defs stuck_def write_defs)
  have e: "pblk_buffer_write (ex_full\<lparr>emergency_gc := True\<rparr>) (ex_bio 5 10 [77]) {} =
     Some (NVM_IO_REQUEUE, ex_full\<lparr>emergency_gc := True\<rparr>, ex_bio 5 10 [77])"
    by (simp add: ex_defs write_defs pblk_buffer_write_retry.simps)
  from pblk_buffer_write_requeue [of "ex_full\<lparr>others := []\<rparr>" 1 "ex_bio 5 10 [77]" "{}"] m s
  have 1: "pblk_write_to_cache (ex_full\<lparr>others := []\<rparr>) (ex_bio 5 10 [77]) {} 1 =
     Some (NVM_IO_REQUEUE, ex_full\<lparr>others := []\<rparr>, ex_bio 5 10 [77])"
    and 2: "pblk_buffer_write (ex_full\<lparr>others := []\<rparr>) (ex_bio 5 10 [77]) {} = None"
    by simp_all
  from pblk_buffer_write_requeue [of "ex_full\<lparr>emergency_gc := True\<rparr>" 1 "ex_bio 5 10 [77]" "{}"
      "ex_full\<lparr>emergency_gc := True\<rparr>" "ex_bio 5 10 [77]"] e
  have 3: "pblk_emergency_gc_mode (ex_full\<lparr>emergency_gc := True\<rparr>)" by simp
  from 1 2 e 3 show ?thesis by simp
qed

text \<open>
  Claim C7 as stated fails: on the small instance with its ring full
  \<^verbatim>\<open>pblk_rb_may_write\<close> fails for one sector, yet \<^verbatim>\<open>pblk_buffer_write\<close> does not return
  \<^verbatim>\<open>NVM_IO_REQUEUE\<close>: it goes round its loop while the other threads retire four entries,
  admits the write (LBA 10 is mapped to cacheline 0) and returns \<^verbatim>\<open>NVM_IO_DONE\<close>.
\<close>

theorem pblk_buffer_write_retries:
  "pblk_rb_may_write (rwb ex_full) 1 1 = None \<and>
   pblk_buffer_write ex_full (ex_bio 5 10 [77]) {} \<noteq> None \<and>
   fst (the (pblk_buffer_write ex_full (ex_bio 5 10 [77]) {})) = NVM_IO_DONE \<and>
   addr_ppa (trans_map (fst (snd (the (pblk_buffer_write ex_full (ex_bio 5 10 [77]) {})))) 10)
     = Ppa_cache 0 False"
  by (simp add: ex_defs write_defs pblk_buffer_write_retry.simps pblk_update_map_retry.simps
      pblk_may_submit_write_st.simps upt_rec)

subsection \<open>In-order retirement\<close>

lemma retired_of_append [simp]: "retired_of (xs @ ys) = retired_of xs @ retired_of ys"
  by (simp add: retired_of_def)

lemma retired_of_simps [simp]:
  "retired_of [] = []"
  "retired_of (e # es) = (case e of Retired s n \<Rightarrow> [(s, n)] | _ \<Rightarrow> []) @ retired_of es"
  by (simp_all add: retired_of_def)

lemma follows_append:
  "follows pos (xs @ ys) = (case follows pos xs of None \<Rightarrow> None | Some p \<Rightarrow> follows p ys)"
  by (induction xs arbitrary: pos) auto





lemma follows_le: "follows pos ch = Some q \<Longrightarrow> pos \<le> q"
proof (induction ch arbitrary: pos)
  case Nil
  then show ?case by simp
next
  case (Cons x ch)
  obtain s n where x: "x = (s, n)" by (cases x)
  from Cons.prems x have "follows (pos + n) ch = Some q" by (simp split: if_splits)
  then have "pos + n \<le> q" by (rule Cons.IH)
  then show ?case by simp
qed




subsection \<open>Padding at teardown\<close>

lemma pad_submits_of_simps [simp]:
  "pad_submits_of [] = []"
  "pad_submits_of (e # es) =
     (case e of Pad_submit b v k \<Rightarrow> [(b, v, k)] | _ \<Rightarrow> []) @ pad_submits_of es"
  "pad_submits_of (xs @ ys) = pad_submits_of xs @ pad_submits_of ys"
  by (simp_all add: pad_submits_of_def)

lemma pad_frame_refl [simp]: "pad_frame p p" by (simp add: pad_frame_def)

lemma pad_frame_trans: "pad_frame p q \<Longrightarrow> pad_frame q r \<Longrightarrow> pad_frame p r"
  by (simp add: pad_frame_def)

lemma pad_invalidate_frame:
  "pad_frame p (pblk_page_pad_invalidate flt p rb a) \<and>
   cur_sec (blks (pblk_page_pad_invalidate flt p rb a) b) = cur_sec (blks p b)"
  by (simp add: pblk_page_pad_invalidate_def Let_def pblk_run_blk_ws_def pad_frame_def)

lemma map_page_step_frame:
  "pad_frame p (fst (map_page_step flt rb s 0 base (p, ppas) i)) \<and>
   cur_sec (blks (fst (map_page_step flt rb s 0 base (p, ppas) i)) b) = cur_sec (blks p b)"
proof -
  define p1 where "p1 = p\<lparr>blks := (blks p)
       (rb := (blks p rb)\<lparr>lba_list := (lba_list (blks p rb))(base + i := ADDR_EMPTY)\<rparr>)\<rparr>"
  have 1: "pad_frame p p1" "cur_sec (blks p1 b) = cur_sec (blks p b)"
    by (simp_all add: p1_def pad_frame_def)
  note 2 = pad_invalidate_frame [of p1 flt rb "base + i" b]
  have "pad_frame p (pblk_page_pad_invalidate flt p1 rb (base + i))"
    using 1(1) 2 by (blast intro: pad_frame_trans)
  then show ?thesis
    using 1(2) 2
    by (auto simp add: map_page_step_def Let_def pad_frame_def simp flip: p1_def)
qed

lemma map_page_fold_frame:
  "pad_frame p (fst (foldl (map_page_step flt rb s 0 base) (p, ppas) xs)) \<and>
   cur_sec (blks (fst (foldl (map_page_step flt rb s 0 base) (p, ppas) xs)) b) = cur_sec (blks p b)"
proof (induction xs arbitrary: p ppas)
  case Nil
  then show ?case by simp
next
  case (Cons x xs)
  obtain q qs where st: "map_page_step flt rb s 0 base (p, ppas) x = (q, qs)"
    by (cases "map_page_step flt rb s 0 base (p, ppas) x")
  from map_page_step_frame [of p flt rb s base ppas x b] st
  have 1: "pad_frame p q" "cur_sec (blks q b) = cur_sec (blks p b)" by simp_all
  from Cons.IH [of q qs] 1 st show ?case
    by (auto intro: pad_frame_trans)
qed

lemma pblk_map_page_pad:
  assumes "\<not> block_is_full p rb"
  shows "\<exists>p' ppas. pblk_map_page flt p rb s n 0 = (False, p', ppas) \<and> pad_frame p p' \<and>
           cur_sec (blks p' rb) = cur_sec (blks p rb) + nat (min_write_pgs p)"
proof -
  define p1 where "p1 = snd (pblk_next_base_sec p rb (nat (min_write_pgs p)))"
  have a: "pblk_alloc_page p rb = (Some (cur_sec (blks p rb)), p1)"
    using assms by (simp add: pblk_alloc_page_def pblk_next_base_sec_def p1_def)
  have 1: "pad_frame p p1" "cur_sec (blks p1 rb) = cur_sec (blks p rb) + nat (min_write_pgs p)"
    by (simp_all add: p1_def pblk_next_base_sec_def pad_frame_def)
  obtain p2 ppas where f: "foldl (map_page_step flt rb s 0 (cur_sec (blks p rb))) (p1, []) [0 ..< n]
      = (p2, ppas)"
    by (cases "foldl (map_page_step flt rb s 0 (cur_sec (blks p rb))) (p1, []) [0 ..< n]")
  from map_page_fold_frame [of p1 flt rb s "cur_sec (blks p rb)" "[]" "[0 ..< n]" rb] f
  have 2: "pad_frame p1 p2" "cur_sec (blks p2 rb) = cur_sec (blks p1 rb)" by simp_all
  have "pblk_map_page flt p rb s n 0 = (False, p2, ppas)"
    using a f by (simp add: pblk_map_page_def)
  moreover have "pad_frame p p2" using 1(1) 2(1) by (rule pad_frame_trans)
  ultimately show ?thesis using 1(2) 2(2) by auto
qed

lemma setup_pad_pages_ok:
  assumes "0 < min_write_pgs p" "mn = nat (min_write_pgs p)"
    and "int (cur_sec (blks p rb)) + min_write_pgs p * int (length pages) \<le> nr_blk_dsecs p"
  shows "\<exists>p' rqd'. setup_pad_pages flt rb mn pages (p, rqd) = Some (p', rqd') \<and>
           pad_frame p p' \<and> rq_ctx rqd' = rq_ctx rqd \<and> rq_bio rqd' = rq_bio rqd \<and>
           cur_sec (blks p' rb) = cur_sec (blks p rb) + length pages * mn"
  using assms
proof (induction pages arbitrary: p rqd)
  case Nil
  then show ?case by simp
next
  case (Cons i pages)
  have "0 < min_write_pgs p * int (length (i # pages))"
    using Cons.prems(1) by (simp add: zero_less_mult_iff)
  then have nf: "\<not> block_is_full p rb"
    using Cons.prems(3) by (simp add: block_is_full_def)
  from pblk_map_page_pad [OF nf, of flt "c_sentry (rq_ctx rqd) + i" mn]
  obtain p1 ppas where m: "pblk_map_page flt p rb (c_sentry (rq_ctx rqd) + i) mn 0 = (False, p1, ppas)"
    and f1: "pad_frame p p1"
    and c1: "cur_sec (blks p1 rb) = cur_sec (blks p rb) + nat (min_write_pgs p)"
    by blast
  define rqd1 where "rqd1 = rqd\<lparr>rq_ppa_list := rq_ppa_list rqd @ ppas\<rparr>"
  have g: "min_write_pgs p1 = min_write_pgs p" "nr_blk_dsecs p1 = nr_blk_dsecs p"
    using f1 by (simp_all add: pad_frame_def)
  have room: "int (cur_sec (blks p1 rb)) + min_write_pgs p1 * int (length pages) \<le> nr_blk_dsecs p1"
    using Cons.prems(1,3) c1 g by (simp add: distrib_left)
  from Cons.IH [of p1 rqd1] Cons.prems(1,2) g room
  obtain p' rqd' where r: "setup_pad_pages flt rb mn pages (p1, rqd1) = Some (p', rqd')"
    and f2: "pad_frame p1 p'" and x: "rq_ctx rqd' = rq_ctx rqd1" "rq_bio rqd' = rq_bio rqd1"
    and c2: "cur_sec (blks p' rb) = cur_sec (blks p1 rb) + length pages * mn"
    by auto
  have "setup_pad_pages flt rb mn (i # pages) (p, rqd) = Some (p', rqd')"
    using m r by (simp add: rqd1_def)
  moreover have "pad_frame p p'" using f1 f2 by (rule pad_frame_trans)
  moreover have "cur_sec (blks p' rb) = cur_sec (blks p rb) + length (i # pages) * mn"
    using c1 c2 Cons.prems(2) by simp
  ultimately show ?case using x by (auto simp: rqd1_def)
qed

lemma length_page_starts:
  assumes "0 < m" "m dvd n"
  shows "length (page_starts n m) = n div m"
proof -
  from assms(2) obtain q where n: "n = m * q" by (auto simp: dvd_def)
  have "(m * q + m - 1) div m = q"
  proof -
    have "m * q + m - 1 = q * m + (m - 1)" using assms(1) by (simp add: mult.commute)
    moreover have "(q * m + (m - 1)) div m = q + (m - 1) div m"
      using assms(1) by (intro div_mult_self3) simp
    moreover have "(m - 1) div m = 0" using assms(1) by simp
    ultimately show ?thesis by simp
  qed
  then show ?thesis using assms(1) by (simp add: page_starts_def n)
qed

lemma pblk_setup_pad_rq_ok:
  assumes "\<not> dma_alloc_fails flt" "0 < min_write_pgs p" "nat (min_write_pgs p) dvd n" "2 \<le> n"
    and "int (cur_sec (blks p rb)) + int n \<le> nr_blk_dsecs p"
  shows "\<exists>p' rqd'. pblk_setup_pad_rq flt p rb (pad_rqd (int n)) = Some (False, p', rqd') \<and>
           pad_frame p p' \<and> rq_ctx rqd' = rq_ctx (pad_rqd (int n)) \<and> rq_bio rqd' = Some 0 \<and>
           cur_sec (blks p' rb) = cur_sec (blks p rb) + n"
proof -
  define mn where "mn = nat (min_write_pgs p)"
  define p1 where "p1 = emit Dma_alloc (emit Dma_alloc p)"
  define rqd1 where "rqd1 = (pad_rqd (int n))\<lparr>rq_nr_ppas := n, rq_has_meta := True\<rparr>"
  have c: "c_nr_valid (rq_ctx (pad_rqd (int n))) = 0" "c_nr_padded (rq_ctx (pad_rqd (int n))) = n"
    by (simp_all add: pad_rqd_def zero_ctx_def)
  have a: "pblk_alloc_w_rq flt p (pad_rqd (int n)) n = (False, p1, rqd1)"
    using assms(1,4) by (simp add: pblk_alloc_w_rq_def p1_def rqd1_def)
  have f1: "pad_frame p p1" by (simp add: p1_def pad_frame_def)
  have mn: "0 < mn" "mn dvd n" using assms(2,3) by (simp_all add: mn_def)
  have len: "length (page_starts n mn) = n div mn" using mn by (rule length_page_starts)
  have "mn * (n div mn) = n" using mn(2) by simp
  then have "int mn * int (n div mn) = int n" by (simp only: of_nat_mult [symmetric])
  moreover have mi: "min_write_pgs p = int mn" using assms(2) by (simp add: mn_def)
  ultimately have room: "int (cur_sec (blks p1 rb)) + min_write_pgs p1 * int (length (page_starts n mn))
      \<le> nr_blk_dsecs p1"
    using assms(5) by (simp add: p1_def len)
  from setup_pad_pages_ok [of p1 mn rb "page_starts n mn" flt rqd1] assms(2) room
  obtain p' rqd' where s: "setup_pad_pages flt rb mn (page_starts n mn) (p1, rqd1) = Some (p', rqd')"
    and f2: "pad_frame p1 p'" and x: "rq_ctx rqd' = rq_ctx rqd1" "rq_bio rqd' = rq_bio rqd1"
    and cs: "cur_sec (blks p' rb) = cur_sec (blks p1 rb) + length (page_starts n mn) * mn"
    by (auto simp: p1_def mn_def)
  have "pblk_setup_pad_rq flt p rb (pad_rqd (int n)) = Some (False, p', rqd')"
    using a s assms(2,4) by (simp add: pblk_setup_pad_rq_def Let_def c mn_def)
  moreover have "pad_frame p p'" using f1 f2 by (rule pad_frame_trans)
  moreover have "cur_sec (blks p' rb) = cur_sec (blks p rb) + n"
    using cs mn(2) by (simp add: len p1_def)
  moreover have "rq_ctx rqd' = rq_ctx (pad_rqd (int n))" "rq_bio rqd' = Some 0"
    using x by (simp_all add: rqd1_def pad_rqd_def)
  ultimately show ?thesis by blast
qed

lemma batches_step:
  assumes "0 < m" "m < n"
  shows "batches n m = nat m # batches (n - m) m"
proof -
  have "n div m = (n - m) div m + 1"
  proof -
    have "((n - m) + m) div m = (n - m) div m + 1"
      using assms(1) by (subst div_add_self2) auto
    then show ?thesis by simp
  qed
  moreover have "0 \<le> (n - m) div m" using assms by (simp add: pos_imp_zdiv_nonneg_iff)
  ultimately have "nat (n div m) = Suc (nat ((n - m) div m))" by simp
  moreover have "n mod m = (n - m) mod m" by simp
  ultimately show ?thesis by (simp add: batches_def)
qed

lemma batches_last:
  assumes "0 < n" "n \<le> m"
  shows "batches n m = [nat n]"
proof (cases "n = m")
  case True
  with assms show ?thesis by (simp add: batches_def)
next
  case False
  with assms have "n div m = 0" "n mod m = n" by simp_all
  with assms show ?thesis by (simp add: batches_def)
qed

lemma pad_submit_trace:
  "pad_submits_of (trace (pad_submit p rb rqd)) =
     pad_submits_of (trace p) @ [(rb, c_nr_valid (rq_ctx rqd), c_nr_padded (rq_ctx rqd))]"
  "max_write_pgs (pad_submit p rb rqd) = max_write_pgs p"
  "min_write_pgs (pad_submit p rb rqd) = min_write_pgs p"
  "nr_blk_dsecs (pad_submit p rb rqd) = nr_blk_dsecs p"
  "blks (pad_submit p rb rqd) = blks p"
  "open_lists (pad_submit p rb rqd) = open_lists p"
  by (simp_all add: pad_submit_def pblk_end_w_pad_def Let_def split: option.splits)

lemma pblk_pad_blk_loop_ok:
  assumes "\<not> rqd_alloc_fails flt" "\<not> bio_map_fails flt" "\<not> dma_alloc_fails flt"
    "\<not> submit_io_fails flt"
    and "2 \<le> min_write_pgs p" "min_write_pgs p dvd max_write_pgs p" "0 < max_write_pgs p"
    and "min_write_pgs p dvd free" "0 < free"
    and "int (cur_sec (blks p rb)) + free \<le> nr_blk_dsecs p"
  shows "\<exists>p'. pblk_pad_blk_loop flt p rb free = Some p' \<and>
           pad_submits_of (trace p') =
             pad_submits_of (trace p) @ map (\<lambda>k. (rb, 0, k)) (batches free (max_write_pgs p)) \<and>
           open_lists p' = open_lists p"
  using assms(5-)
proof (induction "nat free" arbitrary: p free rule: less_induct)
  case less
  define mx where "mx = max_write_pgs p"
  define n where "n = (if free > mx then mx else free)"
  have n_pos: "0 < n" "n \<le> free" "n \<le> mx" using less.prems by (auto simp: n_def mx_def)
  have dv: "min_write_pgs p dvd n" using less.prems by (simp add: n_def mx_def)
  then have "min_write_pgs p \<le> n" using n_pos(1) by (rule zdvd_imp_le)
  then have n2: "2 \<le> nat n" using less.prems(1) by simp
  have dvn: "nat (min_write_pgs p) dvd nat n"
    using dv less.prems(1) n_pos(1) by (simp add: nat_dvd_iff)
  define p0 where "p0 = emit Alloc_rqd p"
  have room0: "int (cur_sec (blks p0 rb)) + int (nat n) \<le> nr_blk_dsecs p0"
    using less.prems n_pos by (simp add: p0_def)
  from pblk_setup_pad_rq_ok [of flt p0 "nat n" rb] assms(3) less.prems(1) dvn n2 room0
  obtain p1 rqd1 where s0: "pblk_setup_pad_rq flt p0 rb (pad_rqd (int (nat n))) = Some (False, p1, rqd1)"
    and f: "pad_frame p0 p1" and x: "rq_ctx rqd1 = rq_ctx (pad_rqd (int (nat n)))"
    and cs: "cur_sec (blks p1 rb) = cur_sec (blks p0 rb) + nat n"
    by (auto simp: p0_def)
  have nn: "int (nat n) = n" using n_pos(1) by simp
  have e: "(if free > max_write_pgs p then max_write_pgs p else free) = n"
    by (simp add: n_def mx_def)
  have s: "pblk_setup_pad_rq flt (emit Alloc_rqd p) rb (pad_rqd n) = Some (False, p1, rqd1)"
    using s0 unfolding nn p0_def .
  define p2 where "p2 = pad_submit p1 rb rqd1"
  have cx: "c_nr_valid (rq_ctx rqd1) = 0" "c_nr_padded (rq_ctx rqd1) = nat n"
    using x n_pos(1) by (simp_all add: pad_rqd_def zero_ctx_def)
  have t2: "pad_submits_of (trace p2) = pad_submits_of (trace p) @ [(rb, 0, nat n)]"
    using f cx by (simp add: p2_def pad_submit_trace pad_frame_def p0_def)
  have g2: "max_write_pgs p2 = mx" "min_write_pgs p2 = min_write_pgs p"
    "nr_blk_dsecs p2 = nr_blk_dsecs p" "open_lists p2 = open_lists p"
    "cur_sec (blks p2 rb) = cur_sec (blks p rb) + nat n"
    using f cs by (simp_all add: p2_def pad_submit_trace pad_frame_def p0_def mx_def)
  show ?case
  proof (cases "free - n > 0")
    case True
    then have big: "mx < free" "n = mx" by (auto simp: n_def split: if_splits)
    have step: "pblk_pad_blk_loop flt p rb free = pblk_pad_blk_loop flt p2 rb (free - mx)"
      using assms(1,2,4) True
      unfolding big(2) [symmetric] p2_def
      by (subst pblk_pad_blk_loop.simps, unfold e) (simp add: s)
    have "\<exists>p'. pblk_pad_blk_loop flt p2 rb (free - mx) = Some p' \<and>
           pad_submits_of (trace p') =
             pad_submits_of (trace p2) @ map (\<lambda>k. (rb, 0, k)) (batches (free - mx) (max_write_pgs p2)) \<and>
           open_lists p' = open_lists p2"
    proof (rule less.hyps)
      show "nat (free - mx) < nat free" using big less.prems by (simp add: mx_def)
      show "2 \<le> min_write_pgs p2" using less.prems g2 by simp
      show "min_write_pgs p2 dvd max_write_pgs p2" using less.prems g2 by (simp add: mx_def)
      show "0 < max_write_pgs p2" using less.prems g2 by (simp add: mx_def)
      show "min_write_pgs p2 dvd free - mx" using less.prems g2 by (simp add: mx_def)
      show "0 < free - mx" using big by simp
      show "int (cur_sec (blks p2 rb)) + (free - mx) \<le> nr_blk_dsecs p2"
        using less.prems g2 big n_pos by simp
    qed
    then obtain p' where r: "pblk_pad_blk_loop flt p2 rb (free - mx) = Some p'"
      and t: "pad_submits_of (trace p') =
             pad_submits_of (trace p2) @ map (\<lambda>k. (rb, 0, k)) (batches (free - mx) mx)"
      and o: "open_lists p' = open_lists p2"
      using g2 by auto
    have "batches free mx = nat mx # batches (free - mx) mx"
      using less.prems big by (intro batches_step) (simp_all add: mx_def)
    then have "pad_submits_of (trace p') =
        pad_submits_of (trace p) @ map (\<lambda>k. (rb, 0, k)) (batches free mx)"
      using t t2 big by simp
    with r o g2 step show ?thesis by (simp add: mx_def)
  next
    case False
    then have small: "free \<le> mx" "n = free" by (auto simp: n_def split: if_splits)
    have "pblk_pad_blk_loop flt p rb free = Some p2"
      using assms(1,2,4) False
      unfolding p2_def
      by (subst pblk_pad_blk_loop.simps, unfold e) (simp add: s)
    moreover have "batches free mx = [nat free]"
      using less.prems small by (intro batches_last) simp_all
    ultimately show ?thesis using t2 g2 small by (simp add: mx_def)
  qed
qed

lemma batches_bounded:
  assumes "0 < m" "0 \<le> n"
  shows "list_all (\<lambda>k. 0 < k \<and> int k \<le> m) (batches n m) \<and> int (sum_list (batches n m)) = n"
proof -
  have 0: "0 \<le> n div m" using assms by (simp add: pos_imp_zdiv_nonneg_iff)
  have 1: "0 \<le> n mod m" "n mod m < m" using assms by simp_all
  have 2: "(n div m) * m + n mod m = n" by simp
  have "list_all (\<lambda>k. 0 < k \<and> int k \<le> m) (batches n m)"
    using assms 1 by (auto simp: batches_def list_all_iff)
  moreover have "int (sum_list (batches n m)) = n"
  proof (cases "n mod m = 0")
    case True
    have "int (sum_list (batches n m)) = n div m * m"
      using assms 0 True by (simp add: batches_def sum_list_replicate)
    with 2 True show ?thesis by (simp only: add_0_right)
  next
    case False
    have "int (sum_list (batches n m)) = n div m * m + n mod m"
      using assms 0 1 False by (simp add: batches_def sum_list_replicate del: div_mult_mod_eq)
    with 2 show ?thesis by (simp only:)
  qed
  ultimately show ?thesis by simp
qed

lemma bitmap_weight_upt: "c \<le> n \<Longrightarrow> bitmap_weight {0 ..< c} n = c"
proof -
  assume "c \<le> n"
  then have "filter (\<lambda>i. i \<in> {0 ..< c}) [0 ..< n] = [0 ..< c]"
  proof (induction n)
    case 0
    then show ?case by simp
  next
    case (Suc n)
    then show ?case by (cases "c = Suc n") auto
  qed
  then show ?thesis by (simp add: bitmap_weight_def)
qed

text \<open>
  C8.  What \<^verbatim>\<open>pblk_pad_open_blks\<close> does with one open block \<open>rb\<close>, when no allocation and no
  submission fails, \<open>min_write_pgs\<close> is at least 2 and divides \<open>max_write_pgs\<close>, and the
  allocation pointer of the block leaves room for its free sectors.  With \<open>free\<close> the
  number of free sectors (\<open>nr_blk_dsecs\<close> minus the weight of the sector bitmap, with \<open>nr_blk_dsecs\<close> not negative):
  if \<open>free\<close> is not a multiple of \<open>min_write_pgs\<close>, an error is reported, nothing is
  submitted and the block stays on the open list; if it is and the block is empty
  (\<open>free = nr_blk_dsecs\<close>), the block is put back and taken off the list, and nothing is
  submitted; if it is and \<open>0 < free < nr_blk_dsecs\<close>, the pad writes submitted are those
  of the batches of \<open>free\<close>: each at most \<open>max_write_pgs\<close> sectors, \<open>free\<close> in total, each
  with \<open>nr_valid = 0\<close> and \<open>nr_padded\<close> the size of the batch.
\<close>

theorem pblk_pad_open_blks_block:
  assumes "\<not> pad_alloc_fails flt" "\<not> rqd_alloc_fails flt" "\<not> bio_map_fails flt"
    "\<not> dma_alloc_fails flt" "\<not> submit_io_fails flt"
    and "2 \<le> min_write_pgs p" "min_write_pgs p dvd max_write_pgs p" "0 < max_write_pgs p"
    and "int (cur_sec (blks p rb)) + pblk_nr_free_secs p rb \<le> nr_blk_dsecs p"
    and "0 \<le> nr_blk_dsecs p"
  shows
    "(pblk_nr_free_secs p rb mod min_write_pgs p \<noteq> 0 \<longrightarrow>
        pad_open_list flt [rb] (p, []) = Some (emit Pr_err p, [rb])) \<and>
     (pblk_nr_free_secs p rb mod min_write_pgs p = 0 \<and> pblk_nr_free_secs p rb = nr_blk_dsecs p \<longrightarrow>
        pad_open_list flt [rb] (p, []) = Some (emit (Put_blk rb) p, [])) \<and>
     (pblk_nr_free_secs p rb mod min_write_pgs p = 0 \<and> 0 < pblk_nr_free_secs p rb \<and>
      pblk_nr_free_secs p rb < nr_blk_dsecs p \<longrightarrow>
        (\<exists>p'. pad_open_list flt [rb] (p, []) = Some (p', [rb]) \<and>
           pad_submits_of (trace p') =
             pad_submits_of (trace p)
               @ map (\<lambda>k. (rb, 0, k)) (batches (pblk_nr_free_secs p rb) (max_write_pgs p)) \<and>
           list_all (\<lambda>k. 0 < k \<and> int k \<le> max_write_pgs p)
             (batches (pblk_nr_free_secs p rb) (max_write_pgs p)) \<and>
           int (sum_list (batches (pblk_nr_free_secs p rb) (max_write_pgs p)))
             = pblk_nr_free_secs p rb))"
proof (intro conjI impI)
  assume "pblk_nr_free_secs p rb mod min_write_pgs p \<noteq> 0"
  then show "pad_open_list flt [rb] (p, []) = Some (emit Pr_err p, [rb])"
    using assms(6) by (simp add: Let_def)
next
  assume a: "pblk_nr_free_secs p rb mod min_write_pgs p = 0 \<and> pblk_nr_free_secs p rb = nr_blk_dsecs p"
  then have "nr_blk_dsecs p mod min_write_pgs p = 0" by auto
  with a show "pad_open_list flt [rb] (p, []) = Some (emit (Put_blk rb) p, [])"
    using assms(6) by (simp add: Let_def)
next
  define free where "free = pblk_nr_free_secs p rb"
  assume "pblk_nr_free_secs p rb mod min_write_pgs p = 0 \<and> 0 < pblk_nr_free_secs p rb \<and>
      pblk_nr_free_secs p rb < nr_blk_dsecs p"
  then have h: "free mod min_write_pgs p = 0" "0 < free" "free < nr_blk_dsecs p"
    by (simp_all add: free_def)
  then have dv: "min_write_pgs p dvd free" by (simp add: dvd_eq_mod_eq_0)
  from pblk_pad_blk_loop_ok [OF assms(2,3,4,5,6,7,8) dv h(2)] assms(9)
  obtain p' where l: "pblk_pad_blk_loop flt p rb free = Some p'"
    and t: "pad_submits_of (trace p') =
             pad_submits_of (trace p) @ map (\<lambda>k. (rb, 0, k)) (batches free (max_write_pgs p))"
    by (auto simp: free_def)
  have "pad_open_list flt [rb] (p, []) = Some (p', [rb])"
    using assms(1,6) h l by (simp add: Let_def pblk_pad_blk_def flip: free_def)
  moreover note t
  moreover have "list_all (\<lambda>k. 0 < k \<and> int k \<le> max_write_pgs p) (batches free (max_write_pgs p)) \<and>
      int (sum_list (batches free (max_write_pgs p))) = free"
    using assms(8) h(2) by (intro batches_bounded) simp_all
  ultimately show "\<exists>p'. pad_open_list flt [rb] (p, []) = Some (p', [rb]) \<and>
           pad_submits_of (trace p') =
             pad_submits_of (trace p)
               @ map (\<lambda>k. (rb, 0, k)) (batches (pblk_nr_free_secs p rb) (max_write_pgs p)) \<and>
           list_all (\<lambda>k. 0 < k \<and> int k \<le> max_write_pgs p)
             (batches (pblk_nr_free_secs p rb) (max_write_pgs p)) \<and>
           int (sum_list (batches (pblk_nr_free_secs p rb) (max_write_pgs p)))
             = pblk_nr_free_secs p rb"
    unfolding free_def by blast
qed

lemma ex_open_free: "pblk_nr_free_secs ex_open 2 = 40"
  by (simp add: pblk_nr_free_secs_def ex_open_def ex_pblk_def ex_blk_def bitmap_weight_upt)

lemma ex_open_geo:
  "min_write_pgs ex_open = 4" "max_write_pgs ex_open = 16" "nr_blk_dsecs ex_open = 64"
  "cur_sec (blks ex_open 2) = 24" "trace ex_open = []"
  by (simp_all add: ex_open_def ex_pblk_def ex_blk_def)

lemma ex_batches: "batches 40 16 = [16, 16, 8]"
  by code_simp

theorem pblk_pad_open_blks_block_witness:
  "\<exists>p'. pad_open_list no_faults [2] (ex_open, []) = Some (p', [2]) \<and>
     pad_submits_of (trace p') = [(2, 0, 16), (2, 0, 16), (2, 0, 8)]"
  using pblk_pad_open_blks_block [of no_faults ex_open 2]
  by (simp add: ex_open_free ex_open_geo ex_batches no_faults_def pad_submits_of_def)

text \<open>
  An empty open block has a free count that is not zero and is a multiple of
  \<open>min_write_pgs\<close>; no pad write is submitted for it: it is put back.
\<close>

theorem pblk_pad_open_blks_skips_empty_block:
  "pblk_nr_free_secs ex_pblk 0 = 64 \<and> min_write_pgs ex_pblk = 4 \<and>
   pad_open_list no_faults [0] (ex_pblk, []) = Some (emit (Put_blk 0) ex_pblk, []) \<and>
   pad_submits_of (trace (emit (Put_blk 0) ex_pblk)) = []"
  by (simp add: pblk_nr_free_secs_def bitmap_weight_def ex_pblk_def ex_blk_def Let_def emit_def)

subsection \<open>Write failure\<close>

text \<open>
  C5.  The completion of a write request of one sector that failed on the device, not a
  close-block request: \<^verbatim>\<open>pblk_end_w_fail\<close> returns at \<^verbatim>\<open>nr_ppas == 1\<close>.  The driver
  instance is as before: no entry is looked up, no recovery is run, nothing is queued
  again, and the request is not passed to the completion queue, so \<open>sync\<close> stays behind
  the entry.
\<close>

theorem pblk_end_w_fail_single_sector:
  "pblk_end_io_write no_faults ex_sub1 ex_fail_rq = ex_sub1 \<and>
   trace ex_sub1 = [] \<and> compl_list ex_sub1 = [] \<and>
   rb_sync (rwb ex_sub1) = 0 \<and> rb_subm (rwb ex_sub1) = 1"
  by (simp add: pblk_end_io_write_def pblk_end_w_fail_def ex_fail_rq_def ex_rq_def zero_rqd_def
      zero_ctx_def ex_sub1_def ex_pblk_def ex_rb_def)

text \<open>The same for every instance and every such request.\<close>

lemma pblk_end_w_fail_one_ppa:
  "rq_failwrite rqd \<Longrightarrow> rq_nr_ppas rqd = 1 \<Longrightarrow> PBLK_IOTYPE_CLOSE_BLK \<notin> ctx_flags (rq_ctx rqd)
     \<Longrightarrow> pblk_end_io_write flt pblk rqd = pblk"
  by (simp add: pblk_end_io_write_def pblk_end_w_fail_def)

subsection \<open>Read pins\<close>

lemmas read_defs = pblk_read_ppalist_rq_def pblk_setup_seq_reads_def setup_seq_step_def
  pblk_lock_read_def pblk_unlock_seq_reads_def unlock_seq_step_def pblk_unlock_read_def
  read_ppalist_rq_list_def pblk_setup_rand_reads_def setup_rand_step_def
  pblk_unlock_rand_reads_def unlock_rand_step_def
  stack_ppas_def stack_cache_read_state_def PBLK_MAX_REQ_ADDRS_def
  pblk_read_from_cache_def pblk_rb_copy_to_bio_def
  pblk_get_laddr_def pblk_get_secs_def NR_PHY_IN_LOG_def PBLK_EXPOSED_PAGE_SIZE_def
  bio_advance_def ADDR_EMPTY_def pin_after_def Let_def

lemmas pin_ex_defs = ex_pinned_def ex_hole_def ex_pblk_def ex_rb_def ex_bio_def ex_w_ctx_def
  zero_rqd_def zero_ctx_def

text \<open>
  C6.  Two reads of the LBAs 10 and 11, in the sequential shape and in the list shape.
  On the instance where another reader holds the pin of LBA 10, the pin is clear after
  the read: \<^verbatim>\<open>pblk_unlock_read\<close> clears it and does not look at \<^verbatim>\<open>cache_read_state\<close>.  On the
  instance where LBA 10 is cached and not pinned and LBA 11 is not mapped, the pin of
  LBA 10 is set after the read: \<^verbatim>\<open>locked\<close> holds the result of the last sector only, and
  the release is not run.
\<close>

theorem read_pins_not_restored:
  "addr_ppa (trans_map ex_pinned 10) = Ppa_cache 0 True \<and>
   pin_after (pblk_read_ppalist_rq ex_pinned (ex_bio 1 10 [0, 0]) zero_rqd {} 2 {}) 10
     = Some (Ppa_cache 0 False) \<and>
   pin_after (read_ppalist_rq_list ex_pinned (ex_bio 1 10 [0, 0]) zero_rqd [10, 11] 2 {}
       {PBLK_IOTYPE_GC}) 10
     = Some (Ppa_cache 0 False) \<and>
   addr_ppa (trans_map ex_hole 10) = Ppa_cache 0 False \<and>
   pin_after (pblk_read_ppalist_rq ex_hole (ex_bio 1 10 [0, 0]) zero_rqd {} 2 {}) 10
     = Some (Ppa_cache 0 True) \<and>
   pin_after (read_ppalist_rq_list ex_hole (ex_bio 1 10 [0, 0]) zero_rqd [10, 11] 2 {}
       {PBLK_IOTYPE_GC}) 10
     = Some (Ppa_cache 0 True)"
proof (intro conjI)
  show "addr_ppa (trans_map ex_pinned 10) = Ppa_cache 0 True"
    by (simp add: pin_ex_defs)
  show "pin_after (pblk_read_ppalist_rq ex_pinned (ex_bio 1 10 [0, 0]) zero_rqd {} 2 {}) 10
     = Some (Ppa_cache 0 False)"
    by (simp add: read_defs pin_ex_defs upt_rec)
  show "pin_after (read_ppalist_rq_list ex_pinned (ex_bio 1 10 [0, 0]) zero_rqd [10, 11] 2 {}
       {PBLK_IOTYPE_GC}) 10 = Some (Ppa_cache 0 False)"
    by (simp add: read_defs pin_ex_defs upt_rec)
  show "addr_ppa (trans_map ex_hole 10) = Ppa_cache 0 False"
    by (simp add: pin_ex_defs)
  show "pin_after (pblk_read_ppalist_rq ex_hole (ex_bio 1 10 [0, 0]) zero_rqd {} 2 {}) 10
     = Some (Ppa_cache 0 True)"
    by (simp add: read_defs pin_ex_defs upt_rec)
  show "pin_after (read_ppalist_rq_list ex_hole (ex_bio 1 10 [0, 0]) zero_rqd [10, 11] 2 {}
       {PBLK_IOTYPE_GC}) 10 = Some (Ppa_cache 0 True)"
    by (simp add: read_defs pin_ex_defs upt_rec)
qed

subsection \<open>Reading back what was written\<close>

lemmas submit_read_defs = pblk_submit_read_def pblk_read_rq_def pblk_try_read_from_cache_def
  set_read_pin_def pblk_end_io_read_def pblk_submit_read_inner_def pblk_submit_read_io_def
  bitmap_full_def bitmap_empty_def no_faults_def emit_def

text \<open>
  A write of one sector that has been admitted is read back from the ring by a read of
  that sector.
\<close>

lemma cached_sector_read_back:
  "Option.bind (pblk_buffer_write ex_pblk (ex_bio 5 42 [77]) {}) (\<lambda>(r1, p1, b1).
     map_option (\<lambda>(r, p, b). (r1, r, bi_pages b))
       (pblk_submit_read no_faults p1 (ex_bio 6 42 [0]) {}))
   = Some (NVM_IO_DONE, NVM_IO_OK, [77])"
  by (simp add: ex_defs write_defs read_defs submit_read_defs zero_rqd_def zero_ctx_def
      pblk_buffer_write_retry.simps pblk_update_map_retry.simps
      pblk_may_submit_write_st.simps upt_rec)

text \<open>
  C1.  The payloads 77 and 99 are written to the LBAs 10 and 12 of the empty instance,
  each write is admitted, and LBA 11 is not mapped.  A read of the three sectors from
  LBA 10 is then served from the ring and returns \<^verbatim>\<open>NVM_IO_OK\<close>, with 99 in the page of
  LBA 11 and nothing in the page of LBA 12: \<^verbatim>\<open>pblk_read_ppalist_rq\<close> leaves the sector that
  is not mapped by \<^verbatim>\<open>continue\<close>, before the \<^verbatim>\<open>bio_advance\<close> at the end of the loop body.
\<close>

theorem read_after_hole_in_wrong_page:
  "Option.bind (pblk_buffer_write ex_pblk (ex_bio 5 10 [77]) {}) (\<lambda>(r1, p1, b1).
     Option.bind (pblk_buffer_write p1 (ex_bio 6 12 [99]) {}) (\<lambda>(r2, p2, b2).
       map_option (\<lambda>(r, p, b). (r1, r2, r, bi_pages b))
         (pblk_submit_read no_faults p2 (ex_bio 7 10 [0, 0, 0]) {})))
   = Some (NVM_IO_DONE, NVM_IO_DONE, NVM_IO_OK, [77, 99, 0])"
  by (simp add: ex_defs write_defs read_defs submit_read_defs zero_rqd_def zero_ctx_def
      pblk_buffer_write_retry.simps pblk_update_map_retry.simps
      pblk_may_submit_write_st.simps upt_rec)

subsection \<open>Reading a discarded sector\<close>

text \<open>
  C9.  The payloads 77, 55 and 99 are written to the LBAs 10, 11 and 12 of the empty
  instance, and LBA 11 is discarded: its L2P entry is empty, and a second discard changes
  nothing (\<open>pblk_discard_idempotent\<close>).  A read of the three sectors from LBA 10 then
  returns \<^verbatim>\<open>NVM_IO_OK\<close> with 99, the payload of LBA 12, in the page of the discarded LBA 11,
  and nothing in the page of LBA 12: \<^verbatim>\<open>pblk_read_ppalist_rq\<close> leaves the empty sector by
  \<^verbatim>\<open>continue\<close>, before the \<^verbatim>\<open>bio_advance\<close> at the end of the loop body.
\<close>

theorem read_of_discarded_sector_not_empty:
  "Option.bind (pblk_buffer_write ex_pblk (ex_bio 5 10 [77, 55, 99]) {}) (\<lambda>(r1, p1, b1).
     Option.bind (pblk_discard p1 (ex_bio 6 11 [0])) (\<lambda>p2.
       map_option (\<lambda>(r, p, b). (r1, addr_ppa (trans_map p2 11), pblk_discard p2 (ex_bio 6 11 [0]) = Some p2,
                               r, bi_pages b))
         (pblk_submit_read no_faults p2 (ex_bio 7 10 [0, 0, 0]) {})))
   = Some (NVM_IO_DONE, Ppa_empty, True, NVM_IO_OK, [77, 99, 0])"
  by (simp add: ex_defs write_defs read_defs submit_read_defs zero_rqd_def zero_ctx_def
      pblk_buffer_write_retry.simps pblk_update_map_retry.simps
      pblk_may_submit_write_st.simps upt_rec
      pblk_discard_def pblk_invalidate_range_def pblk_invalidate_one_def
      pblk_page_invalidate_def)

end
